theory Spec2Isabelle
  imports Complex_Main "HOL-Library.Word" "HOL-Library.Multiset"
begin

unbundle bit_operations_syntax

section \<open>Values of the host platform\<close>

text \<open>
  The repository is two React components. \<open>ChromeExtensionAnalyzer\<close> reads an uploaded
  \<open>.crx\<close> or \<open>.zip\<close> file, skips the signed-package header, hands the rest to the JSZip
  library and lists the members; \<open>ExtensionRunner\<close> shows one HTML member (or a report of
  the manifest) in a frame through an object URL.

  An \<open>ArrayBuffer\<close> is a list of bytes. A JavaScript string is a list of UTF-16 code
  units, so that \<open>length\<close> is the string's \<open>.length\<close>. \<open>ascii\<close> writes a string literal
  of the source.
\<close>

type_synonym byte = "8 word"
type_synonym ArrayBuffer = "byte list"
type_synonym jsstring = "16 word list"

definition ascii :: "string \<Rightarrow> jsstring" where
  "ascii s = map of_char s"

text \<open>\<open>String.prototype.endsWith\<close> with one argument.\<close>

definition endsWith :: "jsstring \<Rightarrow> jsstring \<Rightarrow> bool" where
  "endsWith s searchString =
     (length searchString \<le> length s \<and> drop (length s - length searchString) s = searchString)"

text \<open>
  What \<open>JSON.parse\<close> returns. \<open>JNull\<close> is JavaScript's \<open>null\<close>, which is also the value
  of the component's \<open>manifest\<close> slot before any manifest was read. A number carries the
  exact value of its literal.
\<close>

datatype json =
    JNull
  | JBool bool
  | JNumber rat
  | JString jsstring
  | JArray "json list"
  | JObject "(jsstring \<times> json) list"

section \<open>The signed-package header (handleFileUpload, lines 57-68)\<close>

text \<open>
  \<open>view[i]\<close> on a \<open>Uint8Array\<close> is the byte, or \<open>undefined\<close> past the end. Both operands of
  \<open>|\<close> and \<open><<\<close> go through ToInt32, which takes \<open>undefined\<close> to 0, and the result of
  either operator is a signed 32-bit integer: \<open>view_int32 view i\<close> is the operand as a
  32-bit word, and \<open>sint\<close> reads the final word as the JavaScript number.
\<close>

definition view_int32 :: "ArrayBuffer \<Rightarrow> nat \<Rightarrow> 32 word" where
  "view_int32 view i = (if i < length view then ucast (view ! i) else 0)"

definition headerSize :: int where
  "headerSize = 16"

definition publicKeyLength :: "ArrayBuffer \<Rightarrow> int" where
  "publicKeyLength view =
     sint (view_int32 view 12 OR push_bit 8 (view_int32 view 13)
           OR push_bit 16 (view_int32 view 14) OR push_bit 24 (view_int32 view 15))"

definition signatureLength :: "ArrayBuffer \<Rightarrow> int" where
  "signatureLength view =
     sint (view_int32 view 16 OR push_bit 8 (view_int32 view 17)
           OR push_bit 16 (view_int32 view 18) OR push_bit 24 (view_int32 view 19))"

text \<open>The sum is taken on JavaScript numbers; it is far below \<open>2^53\<close>, hence exact.\<close>

definition zipStartOffset :: "ArrayBuffer \<Rightarrow> int" where
  "zipStartOffset view = headerSize + publicKeyLength view + signatureLength view"

text \<open>
  \<open>ArrayBuffer.prototype.slice(begin)\<close>: a negative \<open>begin\<close> counts from the end, and the
  start is clamped to the buffer. It never throws.
\<close>

definition slice :: "ArrayBuffer \<Rightarrow> int \<Rightarrow> ArrayBuffer" where
  "slice buf begin =
     (let len = int (length buf);
          first = (if begin < 0 then max (len + begin) 0 else min begin len)
      in drop (nat first) buf)"

definition zipData :: "jsstring \<Rightarrow> ArrayBuffer \<Rightarrow> ArrayBuffer" where
  "zipData fileName arrayBuffer =
     (if endsWith fileName (ascii ''.crx'')
      then slice arrayBuffer (zipStartOffset arrayBuffer)
      else arrayBuffer)"

text \<open>The computed archive start lands inside the buffer.\<close>

definition offset_inside :: "ArrayBuffer \<Rightarrow> bool" where
  "offset_inside buf = (0 \<le> zipStartOffset buf \<and> zipStartOffset buf < int (length buf))"

text \<open>
  The header fields as the specification words them: four bytes, least significant
  first, read as a two's-complement 32-bit integer.
\<close>

definition le_int32 :: "byte \<Rightarrow> byte \<Rightarrow> byte \<Rightarrow> byte \<Rightarrow> int" where
  "le_int32 b0 b1 b2 b3 =
     (let u = uint b0 + 256 * uint b1 + 65536 * uint b2 + 16777216 * uint b3
      in if u < 2147483648 then u else u - 4294967296)"

section \<open>Text classification (line 78)\<close>

text \<open>
  \<open>/\.(json|js|html|css|txt|md)$/i.test(fileName)\<close>. Without the \<open>u\<close> flag, ignoring
  case compares the upper-case forms of single code units and never lets a code unit
  from 128 on match an ASCII one, so a letter of the pattern matches exactly its two
  ASCII forms: the name is lowered on \<open>A\<close> to \<open>Z\<close> only and compared with the pattern.
  \<open>$\<close> (no \<open>m\<close> flag) is the end of the name.
\<close>

definition lower_ascii :: "16 word \<Rightarrow> 16 word" where
  "lower_ascii c = (if 0x41 \<le> c \<and> c \<le> 0x5A then c + 0x20 else c)"

definition text_extensions :: "string list" where
  "text_extensions = [''json'', ''js'', ''html'', ''css'', ''txt'', ''md'']"

definition is_text :: "jsstring \<Rightarrow> bool" where
  "is_text fileName =
     list_ex (\<lambda>ext. endsWith (map lower_ascii fileName) (ascii (CHR ''.'' # ext))) text_extensions"

section \<open>The archive as JSZip presents it\<close>

text \<open>
  JSZip is a library, not code of the repository: the model takes what it returns as
  data. \<open>loadedZip.files\<close> is an object from member names to \<open>ZipObject\<close>s, enumerated by
  \<open>Object.entries\<close> as a list of pairs. The list is in the order of that enumeration,
  which is not the order of the archive: names that are array indices come first, in
  ascending order. Of a \<open>ZipObject\<close> the handler reads \<open>dir\<close> and awaits \<open>async('text')\<close> or
  \<open>async('arraybuffer')\<close>; \<open>None\<close> is a rejected promise.
\<close>

record ZipObject =
  dir :: bool
  async_text :: "jsstring option"
  async_arraybuffer :: "ArrayBuffer option"

type_synonym zip_files = "(jsstring \<times> ZipObject) list"

text \<open>
  The two library entry points the handler calls: \<open>new JSZip().loadAsync(data)\<close>
  (\<open>None\<close>: the promise rejects) and \<open>JSON.parse(text)\<close> (\<open>None\<close>: it throws).
\<close>

record platform =
  zip_loadAsync :: "ArrayBuffer \<Rightarrow> zip_files option"
  json_parse :: "jsstring \<Rightarrow> json option"

section \<open>The analyzer component\<close>

datatype content = Text jsstring | Buffer ArrayBuffer

record ExtensionFile =
  name :: jsstring
  size_prop :: nat
  content :: content
  isText :: bool

text \<open>
  The uploaded \<open>File\<close>: its name and what \<open>file.arrayBuffer()\<close> resolves to (\<open>None\<close>: the
  read is rejected).
\<close>

record File =
  file_name :: jsstring
  arrayBuffer :: "ArrayBuffer option"

text \<open>
  What leaves the component: the three toasts of \<open>handleFileUpload\<close> (invalid file;
  extension extracted, with the number of files found; could not process the file), the
  two \<open>console.error\<close> calls, and each call of \<open>loadAsync\<close> with its argument.
\<close>

datatype toast = InvalidFile | Extracted nat | ProcessingError

datatype console_error = ErrorParsingManifest | ErrorProcessingFile

datatype effect = Toast toast | ConsoleError console_error | LoadAsync ArrayBuffer

text \<open>The component's \<open>useState\<close> slots, and the effects so far.\<close>

record analyzer =
  files :: "ExtensionFile list"
  manifest :: json
  selectedFile :: "ExtensionFile option"
  isProcessing :: bool
  effects :: "effect list"

text \<open>
  \<open>(content as string).length || (content as ArrayBuffer).byteLength || 0\<close>: a string
  has \<open>length\<close> and no \<open>byteLength\<close>, an \<open>ArrayBuffer\<close> the reverse; a missing property is
  \<open>undefined\<close>, and \<open>||\<close> passes over \<open>undefined\<close> and 0.
\<close>

fun length_prop :: "content \<Rightarrow> nat option" where
  "length_prop (Text s) = Some (length s)"
| "length_prop (Buffer b) = None"

fun byteLength_prop :: "content \<Rightarrow> nat option" where
  "byteLength_prop (Text s) = None"
| "byteLength_prop (Buffer b) = Some (length b)"

fun or_else :: "nat option \<Rightarrow> nat \<Rightarrow> nat" where
  "or_else None d = d"
| "or_else (Some n) d = (if n = 0 then d else n)"

definition content_size :: "content \<Rightarrow> nat" where
  "content_size c = or_else (length_prop c) (or_else (byteLength_prop c) 0)"

text \<open>\<open>isText ? await zipEntry.async('text') : await zipEntry.async('arraybuffer')\<close>.\<close>

definition read_content :: "bool \<Rightarrow> ZipObject \<Rightarrow> content option" where
  "read_content is_txt zipEntry =
     (if is_txt then map_option Text (async_text zipEntry)
      else map_option Buffer (async_arraybuffer zipEntry))"

text \<open>
  \<open>JSON.parse(content as string)\<close>. The call is guarded by \<open>isText\<close>, so the content is a
  string; an \<open>ArrayBuffer\<close> would be converted to the string \<open>[object ArrayBuffer]\<close>, which
  is no JSON text.
\<close>

fun parse_content :: "(jsstring \<Rightarrow> json option) \<Rightarrow> content \<Rightarrow> json option" where
  "parse_content parse (Text s) = parse s"
| "parse_content parse (Buffer b) = None"

text \<open>
  The loop over \<open>Object.entries(loadedZip.files)\<close> (lines 76-99), with
  \<open>extractedFiles\<close>, \<open>manifestData\<close> and the effects as accumulators. The result is \<open>None\<close>
  when an awaited promise rejects: the exception leaves the loop, and only the effects
  survive it.
\<close>

fun entries_loop ::
  "(jsstring \<Rightarrow> json option) \<Rightarrow> zip_files \<Rightarrow> ExtensionFile list \<Rightarrow> json \<Rightarrow> effect list
     \<Rightarrow> (ExtensionFile list \<times> json) option \<times> effect list" where
  "entries_loop parse [] extractedFiles manifestData es = (Some (extractedFiles, manifestData), es)"
| "entries_loop parse ((fileName, zipEntry) # rest) extractedFiles manifestData es =
     (if dir zipEntry then entries_loop parse rest extractedFiles manifestData es
      else
        (case read_content (is_text fileName) zipEntry of
           None \<Rightarrow> (None, es)
         | Some c \<Rightarrow>
             let pushed = extractedFiles @
                   [\<lparr>name = fileName, size_prop = content_size c, content = c,
                     isText = is_text fileName\<rparr>]
             in if fileName = ascii ''manifest.json'' \<and> is_text fileName
                then (case parse_content parse c of
                        Some v \<Rightarrow> entries_loop parse rest pushed v es
                      | None \<Rightarrow>
                          entries_loop parse rest pushed manifestData
                            (es @ [ConsoleError ErrorParsingManifest]))
                else entries_loop parse rest pushed manifestData es))"

text \<open>The \<open>catch\<close> block of \<open>handleFileUpload\<close> (lines 110-116).\<close>

definition catch_block :: "analyzer \<Rightarrow> analyzer" where
  "catch_block st =
     st\<lparr>effects := effects st @ [ConsoleError ErrorProcessingFile, Toast ProcessingError]\<rparr>"

text \<open>The \<open>try\<close> block (lines 54-108): the state after it, or after the \<open>catch\<close> block.\<close>

definition try_block :: "platform \<Rightarrow> File \<Rightarrow> analyzer \<Rightarrow> analyzer" where
  "try_block lib file st =
     (case arrayBuffer file of
        None \<Rightarrow> catch_block st
      | Some buf \<Rightarrow>
          (let zd = zipData (file_name file) buf;
               st1 = st\<lparr>effects := effects st @ [LoadAsync zd]\<rparr>
           in (case zip_loadAsync lib zd of
                 None \<Rightarrow> catch_block st1
               | Some loadedZip \<Rightarrow>
                   (case entries_loop (json_parse lib) loadedZip [] JNull (effects st1) of
                      (None, es) \<Rightarrow> catch_block (st1\<lparr>effects := es\<rparr>)
                    | (Some (extractedFiles, manifestData), es) \<Rightarrow>
                        st1\<lparr>files := extractedFiles, manifest := manifestData,
                            selectedFile := None,
                            effects := es @ [Toast (Extracted (length extractedFiles))]\<rparr>))))"

text \<open>
  \<open>handleFileUpload\<close> (lines 38-120). The event carries \<open>event.target.files?.[0]\<close>, which
  is \<open>undefined\<close> (\<open>None\<close>) when no file was chosen.
\<close>

definition handleFileUpload :: "platform \<Rightarrow> File option \<Rightarrow> analyzer \<Rightarrow> analyzer" where
  "handleFileUpload lib event st =
     (case event of
        None \<Rightarrow> st
      | Some file \<Rightarrow>
          if \<not> endsWith (file_name file) (ascii ''.crx'') \<and>
             \<not> endsWith (file_name file) (ascii ''.zip'')
          then st\<lparr>effects := effects st @ [Toast InvalidFile]\<rparr>
          else (try_block lib file (st\<lparr>isProcessing := True\<rparr>))\<lparr>isProcessing := False\<rparr>)"

text \<open>The upload ended with the toast that announces the extracted extension.\<close>

fun is_extracted :: "effect \<Rightarrow> bool" where
  "is_extracted (Toast (Extracted n)) = True"
| "is_extracted e = False"

definition upload_succeeds :: "platform \<Rightarrow> File \<Rightarrow> analyzer \<Rightarrow> bool" where
  "upload_succeeds lib file st =
     (case rev (effects (handleFileUpload lib (Some file) st)) of
        [] \<Rightarrow> False
      | e # es \<Rightarrow> is_extracted e)"

section \<open>A reference \<open>JSON.parse\<close>\<close>

text \<open>
  \<open>JSON.parse\<close> is a built-in of the platform, and every theorem below that speaks of
  all archives holds for whatever function stands in \<open>json_parse\<close>. To run the handler on
  a concrete manifest, \<open>JSON_parse\<close> reads the JSON grammar as ECMAScript does: white
  space is space, tab, line feed and carriage return; a string holds no raw control
  character and the escapes \<open>\" \\ \/ \b \f \n \r \t \uXXXX\<close>; a number is
  \<open>-? (0 | [1-9][0-9]*) (. [0-9]+)? ([eE] [+-]? [0-9]+)?\<close>; a repeated key of an object
  keeps its first place and takes the last value; anything else, and anything but white
  space after the value, is a \<open>SyntaxError\<close> (\<open>None\<close>). Two things are not modelled: a
  number is kept exact where JavaScript rounds it to a double, and an object's keys that
  look like array indices are not moved to the front. The recursion on nested values runs
  on fuel; every recursive call comes after at least one consumed code unit, and
  \<open>JSON_parse\<close> starts with more fuel than the text has code units.
\<close>

definition is_ws :: "16 word \<Rightarrow> bool" where
  "is_ws c = (c = 0x20 \<or> c = 0x09 \<or> c = 0x0A \<or> c = 0x0D)"

definition skip_ws :: "jsstring \<Rightarrow> jsstring" where
  "skip_ws s = dropWhile is_ws s"

definition is_digit :: "16 word \<Rightarrow> bool" where
  "is_digit c = (0x30 \<le> c \<and> c \<le> 0x39)"

definition digit_val :: "16 word \<Rightarrow> nat" where
  "digit_val c = unat c - 48"

definition digits_val :: "jsstring \<Rightarrow> nat" where
  "digits_val ds = foldl (\<lambda>n c. 10 * n + digit_val c) 0 ds"

definition hex_val :: "16 word \<Rightarrow> nat option" where
  "hex_val c =
     (if 0x30 \<le> c \<and> c \<le> 0x39 then Some (unat c - 48)
      else if 0x41 \<le> c \<and> c \<le> 0x46 then Some (unat c - 55)
      else if 0x61 \<le> c \<and> c \<le> 0x66 then Some (unat c - 87)
      else None)"

definition simple_escape :: "16 word \<Rightarrow> 16 word option" where
  "simple_escape c =
     (if c = 0x22 then Some 0x22
      else if c = 0x5C then Some 0x5C
      else if c = 0x2F then Some 0x2F
      else if c = 0x62 then Some 0x08
      else if c = 0x66 then Some 0x0C
      else if c = 0x6E then Some 0x0A
      else if c = 0x72 then Some 0x0D
      else if c = 0x74 then Some 0x09
      else None)"

fun parse_chars :: "jsstring \<Rightarrow> jsstring \<Rightarrow> (jsstring \<times> jsstring) option" where
  "parse_chars [] acc = None"
| "parse_chars (c # cs) acc =
     (if c = 0x22 then Some (acc, cs)
      else if c = 0x5C then
        (case cs of
           [] \<Rightarrow> None
         | e # cs1 \<Rightarrow>
             if e = 0x75 then
               (case cs1 of
                  h1 # h2 # h3 # h4 # cs2 \<Rightarrow>
                    (case (hex_val h1, hex_val h2, hex_val h3, hex_val h4) of
                       (Some a, Some b, Some c', Some d) \<Rightarrow>
                         parse_chars cs2 (acc @ [of_nat (4096 * a + 256 * b + 16 * c' + d)])
                     | _ \<Rightarrow> None)
                | _ \<Rightarrow> None)
             else (case simple_escape e of
                     None \<Rightarrow> None
                   | Some u \<Rightarrow> parse_chars cs1 (acc @ [u])))
      else if c < 0x20 then None
      else parse_chars cs (acc @ [c]))"

definition parse_int_part :: "jsstring \<Rightarrow> (jsstring \<times> jsstring) option" where
  "parse_int_part s =
     (case s of
        [] \<Rightarrow> None
      | c # cs \<Rightarrow>
          if c = 0x30 then Some ([c], cs)
          else if is_digit c then Some (takeWhile is_digit s, dropWhile is_digit s)
          else None)"

definition parse_frac :: "jsstring \<Rightarrow> (jsstring \<times> jsstring) option" where
  "parse_frac s =
     (case s of
        c # cs \<Rightarrow>
          if c = 0x2E then
            (if takeWhile is_digit cs = [] then None
             else Some (takeWhile is_digit cs, dropWhile is_digit cs))
          else Some ([], s)
      | [] \<Rightarrow> Some ([], s))"

definition parse_exp :: "jsstring \<Rightarrow> (int \<times> jsstring) option" where
  "parse_exp s =
     (case s of
        c # cs \<Rightarrow>
          if c = 0x65 \<or> c = 0x45 then
            (let neg = (case cs of d # _ \<Rightarrow> d = 0x2D | [] \<Rightarrow> False);
                 signed = (case cs of d # _ \<Rightarrow> d = 0x2D \<or> d = 0x2B | [] \<Rightarrow> False);
                 ds = (if signed then tl cs else cs)
             in if takeWhile is_digit ds = [] then None
                else Some ((if neg then - 1 else 1) * int (digits_val (takeWhile is_digit ds)),
                           dropWhile is_digit ds))
          else Some (0, s)
      | [] \<Rightarrow> Some (0, s))"

definition pow10 :: "int \<Rightarrow> rat" where
  "pow10 e = (if 0 \<le> e then 10 ^ nat e else 1 / 10 ^ nat (- e))"

definition parse_number :: "jsstring \<Rightarrow> (rat \<times> jsstring) option" where
  "parse_number s =
     (let neg = (case s of c # _ \<Rightarrow> c = 0x2D | [] \<Rightarrow> False);
          s1 = (if neg then tl s else s)
      in case parse_int_part s1 of
           None \<Rightarrow> None
         | Some (ip, s2) \<Rightarrow>
             (case parse_frac s2 of
                None \<Rightarrow> None
              | Some (fp, s3) \<Rightarrow>
                  (case parse_exp s3 of
                     None \<Rightarrow> None
                   | Some (e, s4) \<Rightarrow>
                       Some ((if neg then - 1 else 1) * of_nat (digits_val (ip @ fp))
                               * pow10 (e - int (length fp)), s4))))"

fun set_member :: "jsstring \<Rightarrow> json \<Rightarrow> (jsstring \<times> json) list \<Rightarrow> (jsstring \<times> json) list" where
  "set_member k v [] = [(k, v)]"
| "set_member k v ((k', v') # ms) = (if k = k' then (k, v) # ms else (k', v') # set_member k v ms)"

fun parse_value :: "nat \<Rightarrow> jsstring \<Rightarrow> (json \<times> jsstring) option"
  and parse_elements :: "nat \<Rightarrow> jsstring \<Rightarrow> json list \<Rightarrow> (json \<times> jsstring) option"
  and parse_members :: "nat \<Rightarrow> jsstring \<Rightarrow> (jsstring \<times> json) list \<Rightarrow> (json \<times> jsstring) option" where
  "parse_value 0 s = None"
| "parse_value (Suc fuel) s =
     (case skip_ws s of
        [] \<Rightarrow> None
      | c # cs \<Rightarrow>
          if c = 0x7B then
            (case skip_ws cs of
               [] \<Rightarrow> None
             | d # ds \<Rightarrow> if d = 0x7D then Some (JObject [], ds) else parse_members fuel (d # ds) [])
          else if c = 0x5B then
            (case skip_ws cs of
               [] \<Rightarrow> None
             | d # ds \<Rightarrow> if d = 0x5D then Some (JArray [], ds) else parse_elements fuel (d # ds) [])
          else if c = 0x22 then map_option (\<lambda>(str, r). (JString str, r)) (parse_chars cs [])
          else if take 4 (c # cs) = ascii ''null'' then Some (JNull, drop 4 (c # cs))
          else if take 4 (c # cs) = ascii ''true'' then Some (JBool True, drop 4 (c # cs))
          else if take 5 (c # cs) = ascii ''false'' then Some (JBool False, drop 5 (c # cs))
          else map_option (\<lambda>(q, r). (JNumber q, r)) (parse_number (c # cs)))"
| "parse_elements 0 s acc = None"
| "parse_elements (Suc fuel) s acc =
     (case parse_value fuel s of
        None \<Rightarrow> None
      | Some (v, r) \<Rightarrow>
          (case skip_ws r of
             [] \<Rightarrow> None
           | c # cs \<Rightarrow>
               if c = 0x2C then parse_elements fuel cs (acc @ [v])
               else if c = 0x5D then Some (JArray (acc @ [v]), cs)
               else None))"
| "parse_members 0 s acc = None"
| "parse_members (Suc fuel) s acc =
     (case skip_ws s of
        [] \<Rightarrow> None
      | q # cs \<Rightarrow>
          if q \<noteq> 0x22 then None
          else
            (case parse_chars cs [] of
               None \<Rightarrow> None
             | Some (k, r) \<Rightarrow>
                 (case skip_ws r of
                    [] \<Rightarrow> None
                  | c # r1 \<Rightarrow>
                      if c \<noteq> 0x3A then None
                      else
                        (case parse_value fuel r1 of
                           None \<Rightarrow> None
                         | Some (v, r2) \<Rightarrow>
                             (case skip_ws r2 of
                                [] \<Rightarrow> None
                              | d # r3 \<Rightarrow>
                                  if d = 0x2C then parse_members fuel r3 (set_member k v acc)
                                  else if d = 0x7D then Some (JObject (set_member k v acc), r3)
                                  else None)))))"

definition JSON_parse :: "jsstring \<Rightarrow> json option" where
  "JSON_parse s =
     (case parse_value (Suc (length s)) s of
        None \<Rightarrow> None
      | Some (v, r) \<Rightarrow> if skip_ws r = [] then Some v else None)"

section \<open>Object URLs, downloads and the runner component\<close>

text \<open>
  \<open>URL.createObjectURL\<close> returns a fresh \<open>blob:\<close> URL and keeps the blob alive until
  \<open>URL.revokeObjectURL\<close> is called on that URL. The model numbers the URLs in the order
  of their creation. A blob is what it was built from and its MIME type.
\<close>

type_synonym url = nat

datatype mime = TextHtml | TextPlain | OctetStream

datatype blob_parts = FileContent content | ManifestReport json

type_synonym blob = "blob_parts \<times> mime"

record browser =
  live :: "(url \<times> blob) list"
  created :: nat
  downloads :: "(jsstring \<times> url) list"

definition createObjectURL :: "blob \<Rightarrow> browser \<Rightarrow> url \<times> browser" where
  "createObjectURL b br = (created br, br\<lparr>live := live br @ [(created br, b)], created := Suc (created br)\<rparr>)"

definition revokeObjectURL :: "url \<Rightarrow> browser \<Rightarrow> browser" where
  "revokeObjectURL u br = br\<lparr>live := filter (\<lambda>(v, b). v \<noteq> u) (live br)\<rparr>"

text \<open>
  \<open>downloadFile\<close> of the analyzer (lines 122-134): the anchor is clicked with the URL as
  \<open>href\<close> and the member's name as \<open>download\<close>, then the URL is revoked.
\<close>

definition downloadFile :: "ExtensionFile \<Rightarrow> browser \<Rightarrow> browser" where
  "downloadFile file br =
     (case createObjectURL (FileContent (content file), if isText file then TextPlain else OctetStream) br of
        (u, br1) \<Rightarrow> revokeObjectURL u (br1\<lparr>downloads := downloads br1 @ [(name file, u)]\<rparr>))"

text \<open>
  \<open>ExtensionRunner\<close>. \<open>extensionData\<close> is the navigation state (\<open>None\<close> until the effect
  hook has stored it); \<open>extensionUrl\<close> is a string, empty (\<open>None\<close>) at first.
\<close>

record ExtensionData =
  ed_manifest :: json
  ed_files :: "ExtensionFile list"

datatype runner_effect = ToastLoaded | ToastShowingManifest | ToastRunError | ConsoleRunError

record runner =
  extensionData :: "ExtensionData option"
  isRunning :: bool
  extensionUrl :: "url option"
  page :: browser
  shown :: "runner_effect list"

text \<open>
  \<open>runExtension\<close> (lines 35-114). It has no \<open>await\<close>. Without an HTML member the
  report reads \<open>extensionData.manifest.name\<close>, which throws a \<open>TypeError\<close> when the
  manifest is \<open>null\<close>; the \<open>catch\<close> block then reports the failure and no URL is made.
\<close>

definition runExtension :: "runner \<Rightarrow> runner" where
  "runExtension st =
     (case extensionData st of
        None \<Rightarrow> st
      | Some d \<Rightarrow>
          (let st1 = st\<lparr>isRunning := True\<rparr>;
               st2 =
                 (case List.find (\<lambda>file. endsWith (name file) (ascii ''.html'') \<and> isText file) (ed_files d) of
                    Some htmlFile \<Rightarrow>
                      (case createObjectURL (FileContent (content htmlFile), TextHtml) (page st1) of
                         (u, br) \<Rightarrow>
                           st1\<lparr>page := br, extensionUrl := Some u, shown := shown st1 @ [ToastLoaded]\<rparr>)
                  | None \<Rightarrow>
                      if ed_manifest d = JNull
                      then st1\<lparr>shown := shown st1 @ [ConsoleRunError, ToastRunError]\<rparr>
                      else
                        (case createObjectURL (ManifestReport (ed_manifest d), TextHtml) (page st1) of
                           (u, br) \<Rightarrow>
                             st1\<lparr>page := br, extensionUrl := Some u,
                                 shown := shown st1 @ [ToastShowingManifest]\<rparr>))
           in st2\<lparr>isRunning := False\<rparr>))"

text \<open>\<open>refreshExtension\<close> (lines 116-121).\<close>

definition refreshExtension :: "runner \<Rightarrow> runner" where
  "refreshExtension st =
     runExtension
       (case extensionUrl st of
          None \<Rightarrow> st
        | Some u \<Rightarrow> st\<lparr>page := revokeObjectURL u (page st)\<rparr>)"

section \<open>Vocabulary of the properties\<close>

text \<open>The file name passes the check of lines 42-49.\<close>

definition accepted :: "jsstring \<Rightarrow> bool" where
  "accepted fileName = (endsWith fileName (ascii ''.crx'') \<or> endsWith fileName (ascii ''.zip''))"

text \<open>
  The non-directory members of an archive, and a member the loop can read: the promise
  of the one \<open>async\<close> call the loop makes for it is fulfilled.
\<close>

definition members :: "zip_files \<Rightarrow> zip_files" where
  "members zs = filter (\<lambda>(fileName, zipEntry). \<not> dir zipEntry) zs"

definition readable :: "jsstring \<times> ZipObject \<Rightarrow> bool" where
  "readable m =
     (case m of (fileName, zipEntry) \<Rightarrow>
        if dir zipEntry then True else read_content (is_text fileName) zipEntry \<noteq> None)"

text \<open>
  A listed file against the member it was made from: the member's name; the
  classification of the name; for a text name the member's text, for any other name the
  member's bytes and their number.
\<close>

definition unpacks_to :: "ExtensionFile \<Rightarrow> jsstring \<times> ZipObject \<Rightarrow> bool" where
  "unpacks_to f m =
     (case m of (fileName, zipEntry) \<Rightarrow>
        name f = fileName \<and> isText f = is_text fileName \<and>
        (case content f of
           Text t \<Rightarrow> is_text fileName \<and> async_text zipEntry = Some t
         | Buffer b \<Rightarrow>
             \<not> is_text fileName \<and> async_arraybuffer zipEntry = Some b \<and> size_prop f = length b))"

text \<open>A non-directory member whose name is exactly \<open>manifest.json\<close>.\<close>

definition manifest_key :: "jsstring \<times> ZipObject \<Rightarrow> bool" where
  "manifest_key m =
     (case m of (fileName, zipEntry) \<Rightarrow> fileName = ascii ''manifest.json'' \<and> \<not> dir zipEntry)"

section \<open>Concrete packages\<close>

text \<open>The component as mounted: the initial values of its \<open>useState\<close> slots.\<close>

definition initial_analyzer :: analyzer where
  "initial_analyzer =
     \<lparr>files = [], manifest = JNull, selectedFile = None, isProcessing = False, effects = []\<rparr>"

text \<open>
  A stored member whose bytes are ASCII (its text is the same characters), and a
  directory entry.
\<close>

definition ascii_member :: "string \<Rightarrow> ZipObject" where
  "ascii_member s =
     \<lparr>dir = False, async_text = Some (ascii s), async_arraybuffer = Some (map of_char s)\<rparr>"

definition folder :: ZipObject where
  "folder = \<lparr>dir = True, async_text = Some [], async_arraybuffer = Some []\<rparr>"

text \<open>
  The part of JSZip the examples use: \<open>loadAsync\<close> presents the members \<open>zs\<close> for the
  bytes \<open>data\<close> of the zip file that holds them, and rejects any other buffer of the
  examples (none of which is a zip file). The platform of the examples pairs it with
  \<open>JSON_parse\<close>.
\<close>

definition jszip_reading :: "ArrayBuffer \<Rightarrow> zip_files \<Rightarrow> ArrayBuffer \<Rightarrow> zip_files option" where
  "jszip_reading data zs d = (if d = data then Some zs else None)"

definition reference_platform :: "ArrayBuffer \<Rightarrow> zip_files \<Rightarrow> platform" where
  "reference_platform data zs = \<lparr>zip_loadAsync = jszip_reading data zs, json_parse = JSON_parse\<rparr>"

text \<open>
  The archive of the specification's example: \<open>manifest.json\<close> and \<open>popup.html\<close>, as
  the bytes of a zip file with both members stored, and as JSZip presents it.
\<close>

definition example_manifest :: string where
  "example_manifest =
     ''{\"name\":\"Test\",\"version\":\"1.0\",\"manifest_version\":3,\"permissions\":[\"storage\"]}''"

definition example_zip :: ArrayBuffer where
  "example_zip = [
     0x50, 0x4B, 0x03, 0x04, 0x14, 0x00, 0x00, 0x00, 0x00, 0x00, 0x00, 0x00, 0x21, 0x00, 0xE9, 0x95,
     0xCF, 0x09, 0x4E, 0x00, 0x00, 0x00, 0x4E, 0x00, 0x00, 0x00, 0x0D, 0x00, 0x00, 0x00, 0x6D, 0x61,
     0x6E, 0x69, 0x66, 0x65, 0x73, 0x74, 0x2E, 0x6A, 0x73, 0x6F, 0x6E, 0x7B, 0x22, 0x6E, 0x61, 0x6D,
     0x65, 0x22, 0x3A, 0x22, 0x54, 0x65, 0x73, 0x74, 0x22, 0x2C, 0x22, 0x76, 0x65, 0x72, 0x73, 0x69,
     0x6F, 0x6E, 0x22, 0x3A, 0x22, 0x31, 0x2E, 0x30, 0x22, 0x2C, 0x22, 0x6D, 0x61, 0x6E, 0x69, 0x66,
     0x65, 0x73, 0x74, 0x5F, 0x76, 0x65, 0x72, 0x73, 0x69, 0x6F, 0x6E, 0x22, 0x3A, 0x33, 0x2C, 0x22,
     0x70, 0x65, 0x72, 0x6D, 0x69, 0x73, 0x73, 0x69, 0x6F, 0x6E, 0x73, 0x22, 0x3A, 0x5B, 0x22, 0x73,
     0x74, 0x6F, 0x72, 0x61, 0x67, 0x65, 0x22, 0x5D, 0x7D, 0x50, 0x4B, 0x03, 0x04, 0x14, 0x00, 0x00,
     0x00, 0x00, 0x00, 0x00, 0x00, 0x21, 0x00, 0x1F, 0x87, 0x1B, 0x60, 0x0D, 0x00, 0x00, 0x00, 0x0D,
     0x00, 0x00, 0x00, 0x0A, 0x00, 0x00, 0x00, 0x70, 0x6F, 0x70, 0x75, 0x70, 0x2E, 0x68, 0x74, 0x6D,
     0x6C, 0x3C, 0x68, 0x74, 0x6D, 0x6C, 0x3E, 0x3C, 0x2F, 0x68, 0x74, 0x6D, 0x6C, 0x3E, 0x50, 0x4B,
     0x01, 0x02, 0x14, 0x00, 0x14, 0x00, 0x00, 0x00, 0x00, 0x00, 0x00, 0x00, 0x21, 0x00, 0xE9, 0x95,
     0xCF, 0x09, 0x4E, 0x00, 0x00, 0x00, 0x4E, 0x00, 0x00, 0x00, 0x0D, 0x00, 0x00, 0x00, 0x00, 0x00,
     0x00, 0x00, 0x00, 0x00, 0x00, 0x00, 0x80, 0x01, 0x00, 0x00, 0x00, 0x00, 0x6D, 0x61, 0x6E, 0x69,
     0x66, 0x65, 0x73, 0x74, 0x2E, 0x6A, 0x73, 0x6F, 0x6E, 0x50, 0x4B, 0x01, 0x02, 0x14, 0x00, 0x14,
     0x00, 0x00, 0x00, 0x00, 0x00, 0x00, 0x00, 0x21, 0x00, 0x1F, 0x87, 0x1B, 0x60, 0x0D, 0x00, 0x00,
     0x00, 0x0D, 0x00, 0x00, 0x00, 0x0A, 0x00, 0x00, 0x00, 0x00, 0x00, 0x00, 0x00, 0x00, 0x00, 0x00,
     0x00, 0x80, 0x01, 0x79, 0x00, 0x00, 0x00, 0x70, 0x6F, 0x70, 0x75, 0x70, 0x2E, 0x68, 0x74, 0x6D,
     0x6C, 0x50, 0x4B, 0x05, 0x06, 0x00, 0x00, 0x00, 0x00, 0x02, 0x00, 0x02, 0x00, 0x73, 0x00, 0x00,
     0x00, 0xAE, 0x00, 0x00, 0x00, 0x00, 0x00]"

definition example_files :: zip_files where
  "example_files =
     [(ascii ''manifest.json'', ascii_member example_manifest),
      (ascii ''popup.html'', ascii_member ''<html></html>'')]"

text \<open>
  A zip file with three members: \<open>a.txt\<close>, whose two bytes are the UTF-8 form of the
  single character U+00E9; \<open>data.json\<close>, whose one byte \<open>FF\<close> is no UTF-8 and decodes to
  the replacement character U+FFFD; and \<open>icon.png\<close>, whose bytes are the ASCII text
  \<open>hello\<close>.
\<close>

definition odd_zip :: ArrayBuffer where
  "odd_zip = [
     0x50, 0x4B, 0x03, 0x04, 0x14, 0x00, 0x00, 0x00, 0x00, 0x00, 0x00, 0x00, 0x21, 0x00, 0x3E, 0x8D,
     0x04, 0x0E, 0x02, 0x00, 0x00, 0x00, 0x02, 0x00, 0x00, 0x00, 0x05, 0x00, 0x00, 0x00, 0x61, 0x2E,
     0x74, 0x78, 0x74, 0xC3, 0xA9, 0x50, 0x4B, 0x03, 0x04, 0x14, 0x00, 0x00, 0x00, 0x00, 0x00, 0x00,
     0x00, 0x21, 0x00, 0x00, 0x00, 0x00, 0xFF, 0x01, 0x00, 0x00, 0x00, 0x01, 0x00, 0x00, 0x00, 0x09,
     0x00, 0x00, 0x00, 0x64, 0x61, 0x74, 0x61, 0x2E, 0x6A, 0x73, 0x6F, 0x6E, 0xFF, 0x50, 0x4B, 0x03,
     0x04, 0x14, 0x00, 0x00, 0x00, 0x00, 0x00, 0x00, 0x00, 0x21, 0x00, 0x86, 0xA6, 0x10, 0x36, 0x05,
     0x00, 0x00, 0x00, 0x05, 0x00, 0x00, 0x00, 0x08, 0x00, 0x00, 0x00, 0x69, 0x63, 0x6F, 0x6E, 0x2E,
     0x70, 0x6E, 0x67, 0x68, 0x65, 0x6C, 0x6C, 0x6F, 0x50, 0x4B, 0x01, 0x02, 0x14, 0x00, 0x14, 0x00,
     0x00, 0x00, 0x00, 0x00, 0x00, 0x00, 0x21, 0x00, 0x3E, 0x8D, 0x04, 0x0E, 0x02, 0x00, 0x00, 0x00,
     0x02, 0x00, 0x00, 0x00, 0x05, 0x00, 0x00, 0x00, 0x00, 0x00, 0x00, 0x00, 0x00, 0x00, 0x00, 0x00,
     0x80, 0x01, 0x00, 0x00, 0x00, 0x00, 0x61, 0x2E, 0x74, 0x78, 0x74, 0x50, 0x4B, 0x01, 0x02, 0x14,
     0x00, 0x14, 0x00, 0x00, 0x00, 0x00, 0x00, 0x00, 0x00, 0x21, 0x00, 0x00, 0x00, 0x00, 0xFF, 0x01,
     0x00, 0x00, 0x00, 0x01, 0x00, 0x00, 0x00, 0x09, 0x00, 0x00, 0x00, 0x00, 0x00, 0x00, 0x00, 0x00,
     0x00, 0x00, 0x00, 0x80, 0x01, 0x25, 0x00, 0x00, 0x00, 0x64, 0x61, 0x74, 0x61, 0x2E, 0x6A, 0x73,
     0x6F, 0x6E, 0x50, 0x4B, 0x01, 0x02, 0x14, 0x00, 0x14, 0x00, 0x00, 0x00, 0x00, 0x00, 0x00, 0x00,
     0x21, 0x00, 0x86, 0xA6, 0x10, 0x36, 0x05, 0x00, 0x00, 0x00, 0x05, 0x00, 0x00, 0x00, 0x08, 0x00,
     0x00, 0x00, 0x00, 0x00, 0x00, 0x00, 0x00, 0x00, 0x00, 0x00, 0x80, 0x01, 0x4D, 0x00, 0x00, 0x00,
     0x69, 0x63, 0x6F, 0x6E, 0x2E, 0x70, 0x6E, 0x67, 0x50, 0x4B, 0x05, 0x06, 0x00, 0x00, 0x00, 0x00,
     0x03, 0x00, 0x03, 0x00, 0xA0, 0x00, 0x00, 0x00, 0x78, 0x00, 0x00, 0x00, 0x00, 0x00]"

definition odd_files :: zip_files where
  "odd_files =
     [(ascii ''a.txt'',
       \<lparr>dir = False, async_text = Some [0xE9], async_arraybuffer = Some [0xC3, 0xA9]\<rparr>),
      (ascii ''data.json'',
       \<lparr>dir = False, async_text = Some [0xFFFD], async_arraybuffer = Some [0xFF]\<rparr>),
      (ascii ''icon.png'', ascii_member ''hello'')]"

text \<open>
  A zip file whose \<open>manifest.json\<close> is no JSON text (a comma before the closing brace),
  beside a four-byte \<open>icon.png\<close> that is no UTF-8.
\<close>

definition broken_zip :: ArrayBuffer where
  "broken_zip = [
     0x50, 0x4B, 0x03, 0x04, 0x14, 0x00, 0x00, 0x00, 0x00, 0x00, 0x00, 0x00, 0x21, 0x00, 0xA2, 0x24,
     0x3C, 0xF8, 0x10, 0x00, 0x00, 0x00, 0x10, 0x00, 0x00, 0x00, 0x0D, 0x00, 0x00, 0x00, 0x6D, 0x61,
     0x6E, 0x69, 0x66, 0x65, 0x73, 0x74, 0x2E, 0x6A, 0x73, 0x6F, 0x6E, 0x7B, 0x22, 0x6E, 0x61, 0x6D,
     0x65, 0x22, 0x3A, 0x22, 0x54, 0x65, 0x73, 0x74, 0x22, 0x2C, 0x7D, 0x50, 0x4B, 0x03, 0x04, 0x14,
     0x00, 0x00, 0x00, 0x00, 0x00, 0x00, 0x00, 0x21, 0x00, 0xA5, 0xBE, 0xEB, 0x5B, 0x04, 0x00, 0x00,
     0x00, 0x04, 0x00, 0x00, 0x00, 0x08, 0x00, 0x00, 0x00, 0x69, 0x63, 0x6F, 0x6E, 0x2E, 0x70, 0x6E,
     0x67, 0x89, 0x50, 0x4E, 0x47, 0x50, 0x4B, 0x01, 0x02, 0x14, 0x00, 0x14, 0x00, 0x00, 0x00, 0x00,
     0x00, 0x00, 0x00, 0x21, 0x00, 0xA2, 0x24, 0x3C, 0xF8, 0x10, 0x00, 0x00, 0x00, 0x10, 0x00, 0x00,
     0x00, 0x0D, 0x00, 0x00, 0x00, 0x00, 0x00, 0x00, 0x00, 0x00, 0x00, 0x00, 0x00, 0x80, 0x01, 0x00,
     0x00, 0x00, 0x00, 0x6D, 0x61, 0x6E, 0x69, 0x66, 0x65, 0x73, 0x74, 0x2E, 0x6A, 0x73, 0x6F, 0x6E,
     0x50, 0x4B, 0x01, 0x02, 0x14, 0x00, 0x14, 0x00, 0x00, 0x00, 0x00, 0x00, 0x00, 0x00, 0x21, 0x00,
     0xA5, 0xBE, 0xEB, 0x5B, 0x04, 0x00, 0x00, 0x00, 0x04, 0x00, 0x00, 0x00, 0x08, 0x00, 0x00, 0x00,
     0x00, 0x00, 0x00, 0x00, 0x00, 0x00, 0x00, 0x00, 0x80, 0x01, 0x3B, 0x00, 0x00, 0x00, 0x69, 0x63,
     0x6F, 0x6E, 0x2E, 0x70, 0x6E, 0x67, 0x50, 0x4B, 0x05, 0x06, 0x00, 0x00, 0x00, 0x00, 0x02, 0x00,
     0x02, 0x00, 0x71, 0x00, 0x00, 0x00, 0x65, 0x00, 0x00, 0x00, 0x00, 0x00]"

definition broken_files :: zip_files where
  "broken_files =
     [(ascii ''manifest.json'', ascii_member ''{\"name\":\"Test\",}''),
      (ascii ''icon.png'',
       \<lparr>dir = False, async_text = Some [0xFFFD, 0x50, 0x4E, 0x47],
        async_arraybuffer = Some [0x89, 0x50, 0x4E, 0x47]\<rparr>)]"

text \<open>
  A zip file whose only manifests are \<open>subdir/manifest.json\<close> and \<open>Manifest.json\<close>, both
  valid JSON.
\<close>

definition nested_zip :: ArrayBuffer where
  "nested_zip = [
     0x50, 0x4B, 0x03, 0x04, 0x14, 0x00, 0x00, 0x00, 0x00, 0x00, 0x00, 0x00, 0x21, 0x00, 0x00, 0x00,
     0x00, 0x00, 0x00, 0x00, 0x00, 0x00, 0x00, 0x00, 0x00, 0x00, 0x07, 0x00, 0x00, 0x00, 0x73, 0x75,
     0x62, 0x64, 0x69, 0x72, 0x2F, 0x50, 0x4B, 0x03, 0x04, 0x14, 0x00, 0x00, 0x00, 0x00, 0x00, 0x00,
     0x00, 0x21, 0x00, 0xE4, 0xDA, 0x8C, 0x4D, 0x0F, 0x00, 0x00, 0x00, 0x0F, 0x00, 0x00, 0x00, 0x14,
     0x00, 0x00, 0x00, 0x73, 0x75, 0x62, 0x64, 0x69, 0x72, 0x2F, 0x6D, 0x61, 0x6E, 0x69, 0x66, 0x65,
     0x73, 0x74, 0x2E, 0x6A, 0x73, 0x6F, 0x6E, 0x7B, 0x22, 0x6E, 0x61, 0x6D, 0x65, 0x22, 0x3A, 0x22,
     0x54, 0x65, 0x73, 0x74, 0x22, 0x7D, 0x50, 0x4B, 0x03, 0x04, 0x14, 0x00, 0x00, 0x00, 0x00, 0x00,
     0x00, 0x00, 0x21, 0x00, 0xE4, 0xDA, 0x8C, 0x4D, 0x0F, 0x00, 0x00, 0x00, 0x0F, 0x00, 0x00, 0x00,
     0x0D, 0x00, 0x00, 0x00, 0x4D, 0x61, 0x6E, 0x69, 0x66, 0x65, 0x73, 0x74, 0x2E, 0x6A, 0x73, 0x6F,
     0x6E, 0x7B, 0x22, 0x6E, 0x61, 0x6D, 0x65, 0x22, 0x3A, 0x22, 0x54, 0x65, 0x73, 0x74, 0x22, 0x7D,
     0x50, 0x4B, 0x01, 0x02, 0x14, 0x00, 0x14, 0x00, 0x00, 0x00, 0x00, 0x00, 0x00, 0x00, 0x21, 0x00,
     0x00, 0x00, 0x00, 0x00, 0x00, 0x00, 0x00, 0x00, 0x00, 0x00, 0x00, 0x00, 0x07, 0x00, 0x00, 0x00,
     0x00, 0x00, 0x00, 0x00, 0x00, 0x00, 0x10, 0x00, 0x00, 0x00, 0x00, 0x00, 0x00, 0x00, 0x73, 0x75,
     0x62, 0x64, 0x69, 0x72, 0x2F, 0x50, 0x4B, 0x01, 0x02, 0x14, 0x00, 0x14, 0x00, 0x00, 0x00, 0x00,
     0x00, 0x00, 0x00, 0x21, 0x00, 0xE4, 0xDA, 0x8C, 0x4D, 0x0F, 0x00, 0x00, 0x00, 0x0F, 0x00, 0x00,
     0x00, 0x14, 0x00, 0x00, 0x00, 0x00, 0x00, 0x00, 0x00, 0x00, 0x00, 0x00, 0x00, 0x80, 0x01, 0x25,
     0x00, 0x00, 0x00, 0x73, 0x75, 0x62, 0x64, 0x69, 0x72, 0x2F, 0x6D, 0x61, 0x6E, 0x69, 0x66, 0x65,
     0x73, 0x74, 0x2E, 0x6A, 0x73, 0x6F, 0x6E, 0x50, 0x4B, 0x01, 0x02, 0x14, 0x00, 0x14, 0x00, 0x00,
     0x00, 0x00, 0x00, 0x00, 0x00, 0x21, 0x00, 0xE4, 0xDA, 0x8C, 0x4D, 0x0F, 0x00, 0x00, 0x00, 0x0F,
     0x00, 0x00, 0x00, 0x0D, 0x00, 0x00, 0x00, 0x00, 0x00, 0x00, 0x00, 0x00, 0x00, 0x00, 0x00, 0x80,
     0x01, 0x66, 0x00, 0x00, 0x00, 0x4D, 0x61, 0x6E, 0x69, 0x66, 0x65, 0x73, 0x74, 0x2E, 0x6A, 0x73,
     0x6F, 0x6E, 0x50, 0x4B, 0x05, 0x06, 0x00, 0x00, 0x00, 0x00, 0x03, 0x00, 0x03, 0x00, 0xB2, 0x00,
     0x00, 0x00, 0xA0, 0x00, 0x00, 0x00, 0x00, 0x00]"

definition nested_files :: zip_files where
  "nested_files =
     [(ascii ''subdir/'', folder),
      (ascii ''subdir/manifest.json'', ascii_member ''{\"name\":\"Test\"}''),
      (ascii ''Manifest.json'', ascii_member ''{\"name\":\"Test\"}'')]"

text \<open>
  A signed package as the handler reads it: twenty bytes of header, with the bytes
  \<open>p0 p1 p2 p3\<close> at offsets 12 to 15 and zeros at offsets 16 to 19, then the payload.
\<close>

definition crx_with :: "byte \<Rightarrow> byte \<Rightarrow> byte \<Rightarrow> byte \<Rightarrow> ArrayBuffer \<Rightarrow> ArrayBuffer" where
  "crx_with p0 p1 p2 p3 payload =
     [0x43, 0x72, 0x32, 0x34, 0x02, 0x00, 0x00, 0x00, 0x00, 0x00, 0x00, 0x00,
      p0, p1, p2, p3, 0x00, 0x00, 0x00, 0x00] @ payload"

definition upload :: "string \<Rightarrow> ArrayBuffer \<Rightarrow> File" where
  "upload fileName buf = \<lparr>file_name = ascii fileName, arrayBuffer = Some buf\<rparr>"

text \<open>What \<open>JSON.parse\<close> makes of the example's manifest.\<close>

definition example_descriptor :: json where
  "example_descriptor =
     JObject [(ascii ''name'', JString (ascii ''Test'')),
              (ascii ''version'', JString (ascii ''1.0'')),
              (ascii ''manifest_version'', JNumber 3),
              (ascii ''permissions'', JArray [JString (ascii ''storage'')])]"

text \<open>
  The analyzer after an earlier upload: one listed file, a manifest, and that file
  selected in the viewer.
\<close>

definition popup_file :: ExtensionFile where
  "popup_file =
     \<lparr>name = ascii ''popup.html'', size_prop = 13,
      content = Text (ascii ''<html></html>''), isText = True\<rparr>"

definition previous_upload :: analyzer where
  "previous_upload =
     \<lparr>files = [popup_file],
      manifest = JObject [(ascii ''name'', JString (ascii ''Test''))],
      selectedFile = Some popup_file,
      isProcessing = False,
      effects = [Toast (Extracted 1)]\<rparr>"

text \<open>
  The runner as mounted with the navigation state stored, no object URL made yet, and
  the data of the example handed to it.
\<close>

definition mounted_runner :: "ExtensionData \<Rightarrow> runner" where
  "mounted_runner d =
     \<lparr>extensionData = Some d, isRunning = False, extensionUrl = None,
      page = \<lparr>live = [], created = 0, downloads = []\<rparr>, shown = []\<rparr>"

definition example_data :: ExtensionData where
  "example_data = \<lparr>ed_manifest = example_descriptor, ed_files = [popup_file]\<rparr>"

section \<open>Lemmas on the header, the loop and the handler\<close>

lemma content_size_length:
  "content_size c = (case c of Text s \<Rightarrow> length s | Buffer b \<Rightarrow> length b)"
  by (cases c) (simp_all add: content_size_def)



lemma endsWith_last: "endsWith s t \<Longrightarrow> t \<noteq> [] \<Longrightarrow> last s = last t"
  unfolding endsWith_def
  by (metis drop_eq_Nil2 last_drop not_le)

lemma zip_not_crx: "endsWith s (ascii ''.zip'') \<Longrightarrow> \<not> endsWith s (ascii ''.crx'')"
proof
  assume a: "endsWith s (ascii ''.zip'')" and b: "endsWith s (ascii ''.crx'')"
  have "last s = last (ascii ''.zip'')" using endsWith_last[OF a] by (simp add: ascii_def)
  moreover have "last s = last (ascii ''.crx'')" using endsWith_last[OF b] by (simp add: ascii_def)
  ultimately show False by (simp add: ascii_def)
qed

lemma loop_effects:
  "entries_loop parse zs fs m es = (r, es') \<Longrightarrow>
     \<exists>k. es' = es @ replicate k (ConsoleError ErrorParsingManifest)"
proof (induction zs arbitrary: fs m es)
  case Nil
  then show ?case by simp
next
  case (Cons a zs)
  obtain n z where a: "a = (n, z)" by (cases a)
  show ?case
  proof (cases "dir z")
    case True
    with Cons a show ?thesis by simp
  next
    case False
    show ?thesis
    proof (cases "read_content (is_text n) z")
      case None
      with Cons.prems a False show ?thesis by simp
    next
      case (Some c)
      let ?p = "fs @ [\<lparr>name = n, size_prop = content_size c, content = c, isText = is_text n\<rparr>]"
      consider (plain) "entries_loop parse zs ?p m es = (r, es')"
        | (parsed) v where "entries_loop parse zs ?p v es = (r, es')"
        | (failed) "entries_loop parse zs ?p m (es @ [ConsoleError ErrorParsingManifest]) = (r, es')"
        using Cons.prems a False Some by (auto simp: Let_def split: if_splits option.splits)
      then show ?thesis
      proof cases
        case plain
        from Cons.IH[OF this] show ?thesis .
      next
        case parsed
        from Cons.IH[OF this] show ?thesis .
      next
        case failed
        from Cons.IH[OF this] obtain k where "es' = (es @ [ConsoleError ErrorParsingManifest]) @ replicate k (ConsoleError ErrorParsingManifest)" by blast
        then have "es' = es @ replicate (Suc k) (ConsoleError ErrorParsingManifest)" by simp
        then show ?thesis by blast
      qed
    qed
  qed
qed

lemma loop_files:
  "entries_loop parse zs fs m es = (Some (fs', m'), es') \<Longrightarrow>
     \<exists>new. fs' = fs @ new \<and> list_all2 unpacks_to new (members zs)"
proof (induction zs arbitrary: fs m es)
  case Nil
  then show ?case by (simp add: members_def)
next
  case (Cons a zs)
  obtain n z where a: "a = (n, z)" by (cases a)
  show ?case
  proof (cases "dir z")
    case True
    with Cons a show ?thesis by (simp add: members_def)
  next
    case False
    show ?thesis
    proof (cases "read_content (is_text n) z")
      case None
      with Cons.prems a False show ?thesis by simp
    next
      case (Some c)
      let ?f = "\<lparr>name = n, size_prop = content_size c, content = c, isText = is_text n\<rparr>"
      obtain m1 es1 where "entries_loop parse zs (fs @ [?f]) m1 es1 = (Some (fs', m'), es')"
        using Cons.prems a False Some by (auto simp: Let_def split: if_splits option.splits)
      from Cons.IH[OF this] obtain new where new: "fs' = (fs @ [?f]) @ new" "list_all2 unpacks_to new (members zs)"
        by blast
      have "unpacks_to ?f (n, z)"
        using Some
        by (cases "is_text n")
           (auto simp: unpacks_to_def read_content_def content_size_length)
      with new False a have "fs' = fs @ (?f # new) \<and> list_all2 unpacks_to (?f # new) (members (a # zs))"
        by (simp add: members_def)
      then show ?thesis by blast
    qed
  qed
qed

lemma loop_succeeds_iff:
  "(\<exists>r. fst (entries_loop parse zs fs m es) = Some r) \<longleftrightarrow> list_all readable zs"
proof (induction zs arbitrary: fs m es)
  case Nil
  then show ?case by simp
next
  case (Cons a zs)
  obtain n z where a: "a = (n, z)" by (cases a)
  show ?case
    using Cons.IH a
    by (cases "read_content (is_text n) z"; cases "parse_content parse (the (read_content (is_text n) z))")
       (auto simp: readable_def Let_def)
qed


lemma is_text_manifest: "is_text (ascii ''manifest.json'')"
  by (simp add: is_text_def text_extensions_def endsWith_def ascii_def lower_ascii_def)

lemma loop_no_manifest:
  "entries_loop parse zs fs m es = (Some (fs', m'), es') \<Longrightarrow> \<not> list_ex manifest_key zs \<Longrightarrow>
     m' = m \<and> es' = es"
proof (induction zs arbitrary: fs m es)
  case Nil
  then show ?case by simp
next
  case (Cons a zs)
  obtain n z where a: "a = (n, z)" by (cases a)
  from Cons.prems(2) a have rest: "\<not> list_ex manifest_key zs" and "\<not> manifest_key (n, z)"
    by simp_all
  then have here: "n \<noteq> ascii ''manifest.json'' \<or> dir z"
    by (simp add: manifest_key_def)
  show ?case
  proof (cases "dir z")
    case True
    with Cons.prems(1) a have "entries_loop parse zs fs m es = (Some (fs', m'), es')" by simp
    from Cons.IH[OF this rest] show ?thesis .
  next
    case False
    with here have n: "n \<noteq> ascii ''manifest.json''" by simp
    show ?thesis
    proof (cases "read_content (is_text n) z")
      case None
      with Cons.prems(1) a False show ?thesis by simp
    next
      case (Some c)
      with Cons.prems(1) a False n
      have "entries_loop parse zs (fs @ [\<lparr>name = n, size_prop = content_size c, content = c, isText = is_text n\<rparr>]) m es
              = (Some (fs', m'), es')"
        by (simp add: Let_def)
      from Cons.IH[OF this rest] show ?thesis .
    qed
  qed
qed

lemma loop_malformed_manifest:
  assumes "entries_loop parse zs fs m es = (Some (fs', m'), es')"
    and "distinct (map fst zs)"
    and "(ascii ''manifest.json'', z) \<in> set zs"
    and "\<not> dir z"
    and "async_text z = Some t"
    and "parse t = None"
  shows "m' = m \<and> es' = es @ [ConsoleError ErrorParsingManifest]"
  using assms
proof (induction zs arbitrary: fs m es)
  case Nil
  then show ?case by simp
next
  case (Cons a zs)
  obtain n y where a: "a = (n, y)" by (cases a)
  show ?case
  proof (cases "n = ascii ''manifest.json''")
    case True
    have "y = z"
    proof (rule ccontr)
      assume "y \<noteq> z"
      with Cons.prems(3) a have "(ascii ''manifest.json'', z) \<in> set zs" by auto
      then have "ascii ''manifest.json'' \<in> fst ` set zs" by force
      with Cons.prems(2) a True show False by simp
    qed
    have none: "\<not> list_ex manifest_key zs"
    proof
      assume "list_ex manifest_key zs"
      then obtain k w where "(k, w) \<in> set zs" "manifest_key (k, w)"
        by (auto simp: list_ex_iff)
      then have "ascii ''manifest.json'' \<in> fst ` set zs" by (force simp: manifest_key_def)
      with Cons.prems(2) a True show False by simp
    qed
    have rc: "read_content (is_text n) y = Some (Text t)"
      using True \<open>y = z\<close> Cons.prems(5) is_text_manifest by (simp add: read_content_def)
    let ?f = "\<lparr>name = n, size_prop = content_size (Text t), content = Text t, isText = is_text n\<rparr>"
    have "entries_loop parse zs (fs @ [?f]) m (es @ [ConsoleError ErrorParsingManifest]) = (Some (fs', m'), es')"
      using Cons.prems(1) a True \<open>y = z\<close> Cons.prems(4) Cons.prems(6) rc is_text_manifest
      by (simp add: Let_def)
    from loop_no_manifest[OF this none] show ?thesis by simp
  next
    case False
    with Cons.prems(3) a have mem: "(ascii ''manifest.json'', z) \<in> set zs" by auto
    from Cons.prems(2) have dist: "distinct (map fst zs)" by simp
    show ?thesis
    proof (cases "dir y")
      case True
      with Cons.prems(1) a have "entries_loop parse zs fs m es = (Some (fs', m'), es')" by simp
      from Cons.IH[OF this dist mem Cons.prems(4) Cons.prems(5) Cons.prems(6)] show ?thesis .
    next
      case nd: False
      show ?thesis
      proof (cases "read_content (is_text n) y")
        case None
        with Cons.prems(1) a nd show ?thesis by simp
      next
        case (Some c)
        with Cons.prems(1) a nd False
        have "entries_loop parse zs (fs @ [\<lparr>name = n, size_prop = content_size c, content = c, isText = is_text n\<rparr>]) m es
                = (Some (fs', m'), es')"
          by (simp add: Let_def)
        from Cons.IH[OF this dist mem Cons.prems(4) Cons.prems(5) Cons.prems(6)] show ?thesis .
      qed
    qed
  qed
qed

lemma handle_rejected:
  "\<not> accepted (file_name file) \<Longrightarrow>
     handleFileUpload lib (Some file) st = st\<lparr>effects := effects st @ [Toast InvalidFile]\<rparr>"
  by (simp add: handleFileUpload_def accepted_def)

lemma handle_unreadable:
  "accepted (file_name file) \<Longrightarrow> arrayBuffer file = None \<Longrightarrow>
     handleFileUpload lib (Some file) st =
       st\<lparr>isProcessing := False,
          effects := effects st @ [ConsoleError ErrorProcessingFile, Toast ProcessingError]\<rparr>"
  by (auto simp: handleFileUpload_def accepted_def try_block_def catch_block_def)

lemma handle_not_archive:
  "accepted (file_name file) \<Longrightarrow> arrayBuffer file = Some buf \<Longrightarrow>
   zip_loadAsync lib (zipData (file_name file) buf) = None \<Longrightarrow>
     handleFileUpload lib (Some file) st =
       st\<lparr>isProcessing := False,
          effects := effects st @ [LoadAsync (zipData (file_name file) buf),
                                   ConsoleError ErrorProcessingFile, Toast ProcessingError]\<rparr>"
  by (auto simp: handleFileUpload_def accepted_def try_block_def catch_block_def Let_def)

lemma handle_member_rejected:
  "accepted (file_name file) \<Longrightarrow> arrayBuffer file = Some buf \<Longrightarrow>
   zip_loadAsync lib (zipData (file_name file) buf) = Some zs \<Longrightarrow>
   entries_loop (json_parse lib) zs [] JNull (effects st @ [LoadAsync (zipData (file_name file) buf)]) = (None, es) \<Longrightarrow>
     handleFileUpload lib (Some file) st =
       st\<lparr>isProcessing := False,
          effects := es @ [ConsoleError ErrorProcessingFile, Toast ProcessingError]\<rparr>"
  by (auto simp: handleFileUpload_def accepted_def try_block_def catch_block_def Let_def)

lemma handle_extracted:
  "accepted (file_name file) \<Longrightarrow> arrayBuffer file = Some buf \<Longrightarrow>
   zip_loadAsync lib (zipData (file_name file) buf) = Some zs \<Longrightarrow>
   entries_loop (json_parse lib) zs [] JNull (effects st @ [LoadAsync (zipData (file_name file) buf)]) = (Some (fs, m), es) \<Longrightarrow>
     handleFileUpload lib (Some file) st =
       st\<lparr>files := fs, manifest := m, selectedFile := None, isProcessing := False,
          effects := es @ [Toast (Extracted (length fs))]\<rparr>"
  by (auto simp: handleFileUpload_def accepted_def try_block_def catch_block_def Let_def)




lemma or_push8_int:
  fixes x y :: int
  assumes "0 \<le> x" "x < 256"
  shows "x OR push_bit 8 y = x + 256 * y"
proof -
  have "take_bit 8 x = x" using assms by (simp add: take_bit_int_eq_self)
  then have "x OR push_bit 8 y = concat_bit 8 x y" by (simp add: concat_bit_def)
  also have "\<dots> = take_bit 8 x + push_bit 8 y" by (rule concat_bit_eq)
  finally show ?thesis using \<open>take_bit 8 x = x\<close> by (simp add: push_bit_eq_mult)
qed

lemma uint_byte_bounds: "0 \<le> uint (b::byte) \<and> uint b < 256"
  using uint_bounded[of b] by simp

lemma uint_ucast_byte: "uint (ucast (b::byte) :: 32 word) = uint b"
  by (simp add: uint_up_ucast is_up)

lemma le32_uint:
  fixes b0 b1 b2 b3 :: byte
  shows "uint ((ucast b0 OR push_bit 8 (ucast b1) OR push_bit 16 (ucast b2) OR push_bit 24 (ucast b3)) :: 32 word)
       = uint b0 + 256 * uint b1 + 65536 * uint b2 + 16777216 * uint b3"
proof -
  let ?w = "(ucast b0 OR push_bit 8 (ucast b1) OR push_bit 16 (ucast b2) OR push_bit 24 (ucast b3)) :: 32 word"
  let ?k = "uint b0 OR push_bit 8 (uint b1 OR push_bit 8 (uint b2 OR push_bit 8 (uint b3)))"
  have k: "?k = uint b0 + 256 * uint b1 + 65536 * uint b2 + 16777216 * uint b3"
    using uint_byte_bounds[of b0] uint_byte_bounds[of b1] uint_byte_bounds[of b2]
    by (simp add: or_push8_int)
  have "?w = word_of_int ?k"
    by (rule bit_word_eqI) (auto simp: bit_simps)
  then have "uint ?w = take_bit 32 ?k" by (simp add: uint_word_of_int_eq)
  also have "\<dots> = ?k"
    unfolding k using uint_byte_bounds[of b0] uint_byte_bounds[of b1] uint_byte_bounds[of b2] uint_byte_bounds[of b3]
    by (intro take_bit_int_eq_self) auto
  finally show ?thesis using k by simp
qed

lemma sint_32: "sint (w :: 32 word) = (if uint w < 2147483648 then uint w else uint w - 4294967296)"
proof -
  have key: "sint w = (uint w + 2147483648) mod 4294967296 - 2147483648"
    by (simp add: sint_uint signed_take_bit_eq_take_bit_shift take_bit_eq_mod add.commute)
  show ?thesis
  proof (cases "uint w < 2147483648")
    case True
    have "0 \<le> uint w" by simp
    with True have "(uint w + 2147483648) mod 4294967296 = uint w + 2147483648"
      by (intro mod_pos_pos_trivial) auto
    with True key show ?thesis by simp
  next
    case False
    have "uint w + 2147483648 = uint w - 2147483648 + 1 * 4294967296"
      by simp
    then have "(uint w + 2147483648) mod 4294967296 = (uint w - 2147483648 + 1 * 4294967296) mod 4294967296"
      by (rule arg_cong)
    also have "\<dots> = (uint w - 2147483648) mod 4294967296"
      by (rule mod_mult_self1)
    also have "\<dots> = uint w - 2147483648"
      using False uint_bounded[of w] by (intro mod_pos_pos_trivial) auto
    finally show ?thesis using False key by simp
  qed
qed

lemma le32_sint:
  fixes b0 b1 b2 b3 :: byte
  shows "sint ((ucast b0 OR push_bit 8 (ucast b1) OR push_bit 16 (ucast b2) OR push_bit 24 (ucast b3)) :: 32 word)
       = le_int32 b0 b1 b2 b3"
  by (simp only: sint_32 le32_uint le_int32_def Let_def)

lemma publicKeyLength_le:
  "20 \<le> length buf \<Longrightarrow> publicKeyLength buf = le_int32 (buf ! 12) (buf ! 13) (buf ! 14) (buf ! 15)"
  by (simp add: publicKeyLength_def view_int32_def le32_sint)

lemma signatureLength_le:
  "20 \<le> length buf \<Longrightarrow> signatureLength buf = le_int32 (buf ! 16) (buf ! 17) (buf ! 18) (buf ! 19)"
  by (simp add: signatureLength_def view_int32_def le32_sint)

lemma slice_inside:
  "0 \<le> off \<Longrightarrow> off \<le> int (length buf) \<Longrightarrow> slice buf off = drop (nat off) buf"
  by (simp add: slice_def Let_def min_def)

lemma slice_beyond:
  "int (length buf) \<le> off \<Longrightarrow> slice buf off = []"
  by (simp add: slice_def Let_def min_def)

lemma slice_negative:
  "off < 0 \<Longrightarrow> slice buf off = drop (length buf - nat (- off)) buf"
  by (auto simp: slice_def Let_def max_def intro: arg_cong[where f="\<lambda>n. drop n buf"])



lemma upload_succeeds_rejected:
  "\<not> accepted (file_name file) \<Longrightarrow> \<not> upload_succeeds lib file st"
  by (simp add: upload_succeeds_def handle_rejected)

lemma upload_succeeds_unreadable:
  "accepted (file_name file) \<Longrightarrow> arrayBuffer file = None \<Longrightarrow> \<not> upload_succeeds lib file st"
  by (simp add: upload_succeeds_def handle_unreadable)

lemma upload_succeeds_iff:
  assumes "accepted (file_name file)" and "arrayBuffer file = Some buf"
  shows "upload_succeeds lib file st \<longleftrightarrow>
           (case zip_loadAsync lib (zipData (file_name file) buf) of
              None \<Rightarrow> False
            | Some zs \<Rightarrow> list_all readable zs)"
proof (cases "zip_loadAsync lib (zipData (file_name file) buf)")
  case None
  then show ?thesis
    using assms by (simp add: upload_succeeds_def handle_not_archive)
next
  case (Some zs)
  let ?es = "effects st @ [LoadAsync (zipData (file_name file) buf)]"
  obtain r es where loop: "entries_loop (json_parse lib) zs [] JNull ?es = (r, es)"
    by (cases "entries_loop (json_parse lib) zs [] JNull ?es")
  show ?thesis
  proof (cases r)
    case None
    then have "\<not> list_all readable zs"
      using loop_succeeds_iff[of "json_parse lib" zs "[]" JNull ?es] loop by simp
    moreover have "\<not> upload_succeeds lib file st"
      using assms Some loop None by (simp add: upload_succeeds_def handle_member_rejected)
    ultimately show ?thesis using Some by simp
  next
    case (Some p)
    obtain fs m where p: "p = (fs, m)" by (cases p)
    have "list_all readable zs"
      using loop_succeeds_iff[of "json_parse lib" zs "[]" JNull ?es] loop Some by simp
    moreover have "upload_succeeds lib file st"
      using assms \<open>zip_loadAsync lib (zipData (file_name file) buf) = Some zs\<close> loop Some p
      by (simp add: upload_succeeds_def handle_extracted)
    ultimately show ?thesis using \<open>zip_loadAsync lib (zipData (file_name file) buf) = Some zs\<close> by simp
  qed
qed

lemma upload_succeeds_result:
  assumes "upload_succeeds lib file st"
  obtains buf zs fs m es where
    "accepted (file_name file)" "arrayBuffer file = Some buf"
    "zip_loadAsync lib (zipData (file_name file) buf) = Some zs"
    "entries_loop (json_parse lib) zs [] JNull (effects st @ [LoadAsync (zipData (file_name file) buf)]) = (Some (fs, m), es)"
    "handleFileUpload lib (Some file) st =
       st\<lparr>files := fs, manifest := m, selectedFile := None, isProcessing := False,
          effects := es @ [Toast (Extracted (length fs))]\<rparr>"
proof -
  have acc: "accepted (file_name file)"
    using assms upload_succeeds_rejected by blast
  obtain buf where buf: "arrayBuffer file = Some buf"
    using assms acc upload_succeeds_unreadable by (cases "arrayBuffer file") auto
  from assms upload_succeeds_iff[OF acc buf, of lib st]
  obtain zs where zs: "zip_loadAsync lib (zipData (file_name file) buf) = Some zs" and rd: "list_all readable zs"
    by (auto split: option.splits)
  let ?es = "effects st @ [LoadAsync (zipData (file_name file) buf)]"
  from rd loop_succeeds_iff[of "json_parse lib" zs "[]" JNull ?es]
  obtain r where "fst (entries_loop (json_parse lib) zs [] JNull ?es) = Some r" by blast
  then obtain fs m es where loop: "entries_loop (json_parse lib) zs [] JNull ?es = (Some (fs, m), es)"
    by (cases "entries_loop (json_parse lib) zs [] JNull ?es"; cases r) auto
  from that[OF acc buf zs loop handle_extracted[OF acc buf zs loop]] show ?thesis .
qed

lemma loop_independent:
  "fst (entries_loop parse zs fs m es) = fst (entries_loop parse zs fs m es0)"
proof (induction zs arbitrary: fs m es es0)
  case Nil
  then show ?case by simp
next
  case (Cons a zs)
  obtain n z where a: "a = (n, z)" by (cases a)
  show ?case
    using Cons.IH a
    by (cases "read_content (is_text n) z"; cases "parse_content parse (the (read_content (is_text n) z))")
       (auto simp: Let_def)
qed


lemma lower_ascii_idem: "lower_ascii (lower_ascii c) = lower_ascii c"
proof (cases "0x41 \<le> c \<and> c \<le> 0x5A")
  case True
  then have "65 \<le> unat c" and "unat c \<le> 90"
    by (simp_all add: word_le_nat_alt)
  then have "unat (c + 0x20) = unat c + 32"
    by (simp add: unat_word_ariths)
  with \<open>65 \<le> unat c\<close> have "\<not> c + 0x20 \<le> 0x5A"
    by (simp add: word_le_nat_alt)
  with True show ?thesis by (simp add: lower_ascii_def)
next
  case False
  then show ?thesis by (simp add: lower_ascii_def)
qed

lemma is_text_lower: "is_text (map lower_ascii n) = is_text n"
proof -
  have "map lower_ascii (map lower_ascii n) = map lower_ascii n"
    by (simp add: lower_ascii_idem)
  then show ?thesis by (simp only: is_text_def)
qed

lemma endsWith_iff: "endsWith s t \<longleftrightarrow> (\<exists>stem. s = stem @ t)"
proof
  assume "endsWith s t"
  then have "length t \<le> length s" and "drop (length s - length t) s = t"
    by (simp_all add: endsWith_def)
  then have "s = take (length s - length t) s @ t"
    by (metis append_take_drop_id)
  then show "\<exists>stem. s = stem @ t" ..
next
  assume "\<exists>stem. s = stem @ t"
  then show "endsWith s t" by (auto simp: endsWith_def)
qed

lemma is_text_iff:
  "is_text n \<longleftrightarrow>
     (\<exists>stem ext. ext \<in> set text_extensions \<and> map lower_ascii n = stem @ ascii (CHR ''.'' # ext))"
  by (auto simp: is_text_def list_ex_iff endsWith_iff)

lemma data_json_text: "is_text (ascii ''data.json'')"
  by (simp add: is_text_def text_extensions_def endsWith_def ascii_def lower_ascii_def)

lemma icon_png_binary: "\<not> is_text (ascii ''icon.png'')"
  by (simp add: is_text_def text_extensions_def endsWith_def ascii_def lower_ascii_def)

lemma unpacks_to_isText: "list_all2 unpacks_to fs zs \<Longrightarrow> list_all (\<lambda>f. isText f = is_text (name f)) fs"
  by (induction fs zs rule: list_all2_induct) (auto simp: unpacks_to_def)

lemma upload_succeeds_files:
  assumes "upload_succeeds lib file st"
  obtains buf zs where "accepted (file_name file)" "arrayBuffer file = Some buf"
    "zip_loadAsync lib (zipData (file_name file) buf) = Some zs" "list_all readable zs"
    "list_all2 unpacks_to (files (handleFileUpload lib (Some file) st)) (members zs)"
proof -
  from assms obtain buf zs fs m es where acc: "accepted (file_name file)" and buf: "arrayBuffer file = Some buf"
    and zs: "zip_loadAsync lib (zipData (file_name file) buf) = Some zs"
    and loop: "entries_loop (json_parse lib) zs [] JNull (effects st @ [LoadAsync (zipData (file_name file) buf)]) = (Some (fs, m), es)"
    and res: "handleFileUpload lib (Some file) st =
       st\<lparr>files := fs, manifest := m, selectedFile := None, isProcessing := False,
          effects := es @ [Toast (Extracted (length fs))]\<rparr>"
    by (rule upload_succeeds_result)
  from loop_files[OF loop] have "list_all2 unpacks_to fs (members zs)" by simp
  with res have a: "list_all2 unpacks_to (files (handleFileUpload lib (Some file) st)) (members zs)" by simp
  from assms upload_succeeds_iff[OF acc buf, of lib st] zs have b: "list_all readable zs" by simp
  from that[OF acc buf zs b a] show ?thesis .
qed

lemma unpacks_to_names: "list_all2 unpacks_to fs zs \<Longrightarrow> map name fs = map fst zs"
  by (induction fs zs rule: list_all2_induct) (auto simp: unpacks_to_def)

lemma handle_outcome:
  assumes "accepted (file_name file)" and "arrayBuffer file = Some buf"
  obtains (extracted) zs fs m es where
      "zip_loadAsync lib (zipData (file_name file) buf) = Some zs"
      "entries_loop (json_parse lib) zs [] JNull (effects st @ [LoadAsync (zipData (file_name file) buf)]) = (Some (fs, m), es)"
      "handleFileUpload lib (Some file) st =
         st\<lparr>files := fs, manifest := m, selectedFile := None, isProcessing := False,
            effects := es @ [Toast (Extracted (length fs))]\<rparr>"
      "upload_succeeds lib file st"
  | (failed) k where
      "handleFileUpload lib (Some file) st =
         st\<lparr>isProcessing := False,
            effects := effects st @ LoadAsync (zipData (file_name file) buf)
                         # replicate k (ConsoleError ErrorParsingManifest)
                         @ [ConsoleError ErrorProcessingFile, Toast ProcessingError]\<rparr>"
      "\<not> upload_succeeds lib file st"
proof (cases "zip_loadAsync lib (zipData (file_name file) buf)")
  case None
  have "handleFileUpload lib (Some file) st =
         st\<lparr>isProcessing := False,
            effects := effects st @ LoadAsync (zipData (file_name file) buf)
                         # replicate 0 (ConsoleError ErrorParsingManifest)
                         @ [ConsoleError ErrorProcessingFile, Toast ProcessingError]\<rparr>"
    using handle_not_archive[OF assms None, of st] by simp
  moreover have "\<not> upload_succeeds lib file st"
    using upload_succeeds_iff[OF assms, of lib st] None by simp
  ultimately show ?thesis by (rule failed)
next
  case (Some zs)
  let ?es = "effects st @ [LoadAsync (zipData (file_name file) buf)]"
  obtain r es where loop: "entries_loop (json_parse lib) zs [] JNull ?es = (r, es)"
    by (cases "entries_loop (json_parse lib) zs [] JNull ?es")
  from loop_effects[OF loop] obtain k where es: "es = ?es @ replicate k (ConsoleError ErrorParsingManifest)"
    by blast
  show ?thesis
  proof (cases r)
    case None
    have "handleFileUpload lib (Some file) st =
         st\<lparr>isProcessing := False,
            effects := effects st @ LoadAsync (zipData (file_name file) buf)
                         # replicate k (ConsoleError ErrorParsingManifest)
                         @ [ConsoleError ErrorProcessingFile, Toast ProcessingError]\<rparr>"
      using handle_member_rejected[OF assms Some, of st es] loop None es by simp
    moreover have "\<not> upload_succeeds lib file st"
      using upload_succeeds_iff[OF assms, of lib st] Some
            loop_succeeds_iff[of "json_parse lib" zs "[]" JNull ?es] loop None by simp
    ultimately show ?thesis by (rule failed)
  next
    case (Some p)
    obtain fs m where p: "p = (fs, m)" by (cases p)
    note zs = \<open>zip_loadAsync lib (zipData (file_name file) buf) = Some zs\<close>
    have l: "entries_loop (json_parse lib) zs [] JNull ?es = (Some (fs, m), es)"
      using loop Some p by simp
    have "upload_succeeds lib file st"
      using upload_succeeds_iff[OF assms, of lib st] zs
            loop_succeeds_iff[of "json_parse lib" zs "[]" JNull ?es] l by simp
    from extracted[OF zs l handle_extracted[OF assms zs l] this] show ?thesis .
  qed
qed

lemma handle_calls_loadAsync:
  assumes "accepted (file_name file)" and "arrayBuffer file = Some buf"
  shows "take (Suc (length (effects st))) (effects (handleFileUpload lib (Some file) st))
           = effects st @ [LoadAsync (zipData (file_name file) buf)]"
  using assms
proof (cases rule: handle_outcome[where lib = lib and st = st])
  case (extracted zs fs m es)
  from loop_effects[OF extracted(2)] obtain k where
    "es = (effects st @ [LoadAsync (zipData (file_name file) buf)]) @ replicate k (ConsoleError ErrorParsingManifest)"
    by blast
  with extracted(3) show ?thesis by simp
next
  case (failed k)
  then show ?thesis by simp
qed

lemma handle_failed_keeps:
  assumes "\<not> upload_succeeds lib file st"
  shows "files (handleFileUpload lib (Some file) st) = files st \<and>
         manifest (handleFileUpload lib (Some file) st) = manifest st \<and>
         selectedFile (handleFileUpload lib (Some file) st) = selectedFile st"
proof (cases "accepted (file_name file)")
  case False
  then show ?thesis by (simp add: handle_rejected)
next
  case True
  show ?thesis
  proof (cases "arrayBuffer file")
    case None
    with True show ?thesis by (simp add: handle_unreadable)
  next
    case (Some buf)
    from True Some show ?thesis
    proof (cases rule: handle_outcome[where lib = lib and st = st])
      case (extracted zs fs m es)
      with assms show ?thesis by simp
    next
      case (failed k)
      then show ?thesis by simp
    qed
  qed
qed

lemma handle_failed_toast:
  assumes "accepted (file_name file)" and "\<not> upload_succeeds lib file st"
  shows "last (effects (handleFileUpload lib (Some file) st)) = Toast ProcessingError"
proof (cases "arrayBuffer file")
  case None
  with assms(1) show ?thesis by (simp add: handle_unreadable)
next
  case (Some buf)
  from assms(1) Some show ?thesis
  proof (cases rule: handle_outcome[where lib = lib and st = st])
    case (extracted zs fs m es)
    with assms(2) show ?thesis by simp
  next
    case (failed k)
    then show ?thesis by simp
  qed
qed

lemma handle_succeeded_fresh:
  assumes "upload_succeeds lib file st"
  shows "upload_succeeds lib file st0 \<and>
         files (handleFileUpload lib (Some file) st) = files (handleFileUpload lib (Some file) st0) \<and>
         manifest (handleFileUpload lib (Some file) st) = manifest (handleFileUpload lib (Some file) st0) \<and>
         selectedFile (handleFileUpload lib (Some file) st) = None"
proof -
  from assms obtain buf zs fs m es where acc: "accepted (file_name file)" and buf: "arrayBuffer file = Some buf"
    and zs: "zip_loadAsync lib (zipData (file_name file) buf) = Some zs"
    and loop: "entries_loop (json_parse lib) zs [] JNull (effects st @ [LoadAsync (zipData (file_name file) buf)]) = (Some (fs, m), es)"
    and res: "handleFileUpload lib (Some file) st =
       st\<lparr>files := fs, manifest := m, selectedFile := None, isProcessing := False,
          effects := es @ [Toast (Extracted (length fs))]\<rparr>"
    by (rule upload_succeeds_result)
  have ok0: "upload_succeeds lib file st0"
    using assms upload_succeeds_iff[OF acc buf, of lib st] upload_succeeds_iff[OF acc buf, of lib st0] by simp
  let ?es0 = "effects st0 @ [LoadAsync (zipData (file_name file) buf)]"
  have "fst (entries_loop (json_parse lib) zs [] JNull ?es0) = Some (fs, m)"
    using loop loop_independent[of "json_parse lib" zs "[]" JNull ?es0 "effects st @ [LoadAsync (zipData (file_name file) buf)]"]
    by simp
  then obtain es0 where loop0: "entries_loop (json_parse lib) zs [] JNull ?es0 = (Some (fs, m), es0)"
    by (cases "entries_loop (json_parse lib) zs [] JNull ?es0") simp
  from handle_extracted[OF acc buf zs loop0] res ok0 show ?thesis by simp
qed

lemma members_length_loop:
  "entries_loop parse zs [] m es = (Some (fs, m'), es') \<Longrightarrow>
     length fs = length (members zs) \<and> map name fs = map fst (members zs)"
  using loop_files[of parse zs "[]" m es fs m' es'] unpacks_to_names[of fs "members zs"]
  by (auto dest: list_all2_lengthD)

lemma example_manifest_parsed: "JSON_parse (ascii example_manifest) = Some example_descriptor"
  by code_simp

lemma is_text_popup: "is_text (ascii ''popup.html'')"
  by (simp add: is_text_def text_extensions_def endsWith_def ascii_def lower_ascii_def)

lemma popup_not_manifest: "ascii ''popup.html'' \<noteq> ascii ''manifest.json''"
  by (simp add: ascii_def)

lemma example_loop:
  "entries_loop JSON_parse example_files [] JNull es =
     (Some ([\<lparr>name = ascii ''manifest.json'', size_prop = 78,
               content = Text (ascii example_manifest), isText = True\<rparr>,
             \<lparr>name = ascii ''popup.html'', size_prop = 13,
               content = Text (ascii ''<html></html>''), isText = True\<rparr>],
            example_descriptor), es)"
proof -
  have l1: "content_size (Text (ascii example_manifest)) = 78"
    by (simp add: content_size_length ascii_def example_manifest_def)
  have l2: "content_size (Text (ascii ''<html></html>'')) = 13"
    by (simp add: content_size_length ascii_def)
  show ?thesis
    by (simp add: example_files_def ascii_member_def read_content_def is_text_manifest is_text_popup
        popup_not_manifest example_manifest_parsed l1 l2 Let_def)
qed

lemma crx_accepted: "endsWith n (ascii ''.crx'') \<Longrightarrow> accepted n"
  by (simp add: accepted_def)

lemma zipData_crx: "endsWith n (ascii ''.crx'') \<Longrightarrow> zipData n buf = slice buf (zipStartOffset buf)"
  by (simp add: zipData_def)

lemma slice_outside:
  "\<not> offset_inside buf \<Longrightarrow>
     slice buf (zipStartOffset buf) =
       (if zipStartOffset buf < 0 then drop (length buf - nat (- zipStartOffset buf)) buf else [])"
  by (cases "zipStartOffset buf < 0") (simp_all add: offset_inside_def slice_negative slice_beyond)

lemma find_popup:
  "List.find (\<lambda>file. endsWith (name file) (ascii ''.html'') \<and> isText file) (ed_files example_data)
     = Some popup_file"
  by (simp add: example_data_def popup_file_def endsWith_def ascii_def)

lemma run_example_step:
  assumes "extensionData st = Some example_data"
  shows "extensionData (runExtension st) = Some example_data \<and>
         live (page (runExtension st)) =
           live (page st) @ [(created (page st), (FileContent (content popup_file), TextHtml))] \<and>
         created (page (runExtension st)) = Suc (created (page st)) \<and>
         extensionUrl (runExtension st) = Some (created (page st))"
  using assms by (simp add: runExtension_def find_popup createObjectURL_def Let_def)

lemma run_example_iterated:
  "extensionData st = Some example_data \<Longrightarrow>
     extensionData ((runExtension ^^ n) st) = Some example_data \<and>
     length (live (page ((runExtension ^^ n) st))) = length (live (page st)) + n"
proof (induction n)
  case 0
  then show ?case by simp
next
  case (Suc n)
  then have "extensionData ((runExtension ^^ n) st) = Some example_data"
    and len: "length (live (page ((runExtension ^^ n) st))) = length (live (page st)) + n"
    by simp_all
  from run_example_step[OF this(1)] len show ?case by simp
qed

lemma runExtension_revokes_nothing:
  "set (live (page st)) \<subseteq> set (live (page (runExtension st)))"
  by (auto simp: runExtension_def createObjectURL_def Let_def split: option.splits)

section \<open>The claims\<close>

subsection \<open>C1: the archive start of a signed package\<close>

text \<open>
  C1, as amended. For a \<open>.crx\<close> upload whose buffer holds the twenty header bytes, the
  handler reads \<open>publicKeyLength\<close> from bytes 12 to 15 and \<open>signatureLength\<close> from
  bytes 16 to 19, each least significant byte first as a 32-bit two's-complement
  integer, takes \<open>16 + publicKeyLength + signatureLength\<close> as the archive start, and
  hands \<open>slice\<close> of the buffer from that offset to JSZip: the rest of the buffer from the
  offset when the offset lies inside. The offset is never checked: the upload succeeds
  exactly when JSZip accepts the sliced payload and every non-directory member can be
  read.
\<close>

theorem crx_archive_start:
  assumes "endsWith (file_name file) (ascii ''.crx'')"
    and "arrayBuffer file = Some buf"
    and "20 \<le> length buf"
  shows "publicKeyLength buf = le_int32 (buf ! 12) (buf ! 13) (buf ! 14) (buf ! 15) \<and>
         signatureLength buf = le_int32 (buf ! 16) (buf ! 17) (buf ! 18) (buf ! 19) \<and>
         zipStartOffset buf = 16 + publicKeyLength buf + signatureLength buf \<and>
         zipData (file_name file) buf = slice buf (zipStartOffset buf) \<and>
         (offset_inside buf \<longrightarrow> zipData (file_name file) buf = drop (nat (zipStartOffset buf)) buf) \<and>
         take (Suc (length (effects st))) (effects (handleFileUpload lib (Some file) st))
           = effects st @ [LoadAsync (zipData (file_name file) buf)] \<and>
         (upload_succeeds lib file st \<longleftrightarrow>
            (case zip_loadAsync lib (zipData (file_name file) buf) of
               None \<Rightarrow> False
             | Some zs \<Rightarrow> list_all readable zs))"
proof -
  note acc = crx_accepted[OF assms(1)]
  have "offset_inside buf \<longrightarrow> zipData (file_name file) buf = drop (nat (zipStartOffset buf)) buf"
    using zipData_crx[OF assms(1), of buf] slice_inside[of "zipStartOffset buf" buf]
    by (simp add: offset_inside_def)
  moreover have "zipStartOffset buf = 16 + publicKeyLength buf + signatureLength buf"
    by (simp add: zipStartOffset_def headerSize_def)
  moreover note publicKeyLength_le[OF assms(3)] signatureLength_le[OF assms(3)]
    zipData_crx[OF assms(1), of buf] handle_calls_loadAsync[OF acc assms(2), of st lib]
    upload_succeeds_iff[OF acc assms(2), of lib st]
  ultimately show ?thesis by blast
qed

theorem crx_archive_start_witness:
  "endsWith (file_name (upload ''a.crx'' (crx_with 0x04 0x00 0x00 0x00 example_zip))) (ascii ''.crx'') \<and>
   arrayBuffer (upload ''a.crx'' (crx_with 0x04 0x00 0x00 0x00 example_zip))
     = Some (crx_with 0x04 0x00 0x00 0x00 example_zip) \<and>
   20 \<le> length (crx_with 0x04 0x00 0x00 0x00 example_zip) \<and>
   publicKeyLength (crx_with 0x04 0x00 0x00 0x00 example_zip) = 4 \<and>
   signatureLength (crx_with 0x04 0x00 0x00 0x00 example_zip) = 0 \<and>
   zipStartOffset (crx_with 0x04 0x00 0x00 0x00 example_zip) = 20 \<and>
   offset_inside (crx_with 0x04 0x00 0x00 0x00 example_zip) \<and>
   zipData (file_name (upload ''a.crx'' (crx_with 0x04 0x00 0x00 0x00 example_zip)))
     (crx_with 0x04 0x00 0x00 0x00 example_zip) = example_zip \<and>
   upload_succeeds (reference_platform example_zip example_files)
     (upload ''a.crx'' (crx_with 0x04 0x00 0x00 0x00 example_zip)) initial_analyzer"
proof -
  let ?buf = "crx_with 0x04 0x00 0x00 0x00 example_zip"
  let ?file = "upload ''a.crx'' ?buf"
  let ?lib = "reference_platform example_zip example_files"
  have a: "endsWith (file_name ?file) (ascii ''.crx'')"
    by (simp add: upload_def endsWith_def ascii_def)
  have b: "arrayBuffer ?file = Some ?buf"
    by (simp add: upload_def)
  have c: "20 \<le> length ?buf"
    by (simp add: crx_with_def)
  note t = crx_archive_start[OF a b c, of initial_analyzer ?lib]
  have p: "le_int32 (?buf ! 12) (?buf ! 13) (?buf ! 14) (?buf ! 15) = 4"
    by (simp add: crx_with_def le_int32_def)
  have s: "le_int32 (?buf ! 16) (?buf ! 17) (?buf ! 18) (?buf ! 19) = 0"
    by (simp add: crx_with_def le_int32_def)
  from t p s have pk: "publicKeyLength ?buf = 4" and sg: "signatureLength ?buf = 0"
    and off: "zipStartOffset ?buf = 20" by simp_all
  have len: "length ?buf = 20 + length example_zip"
    by (simp add: crx_with_def)
  have "0 < length example_zip" by (simp add: example_zip_def)
  with off len have ins: "offset_inside ?buf" by (simp add: offset_inside_def)
  from t ins have "zipData (file_name ?file) ?buf = drop (nat (zipStartOffset ?buf)) ?buf"
    by blast
  also have "\<dots> = drop 20 ?buf" by (simp add: off)
  also have "\<dots> = example_zip" by (simp add: crx_with_def)
  finally have zd: "zipData (file_name ?file) ?buf = example_zip" .
  have "list_all readable example_files" by code_simp
  with t zd have "upload_succeeds ?lib ?file initial_analyzer"
    by (simp add: reference_platform_def jszip_reading_def)
  with a b c pk sg off ins zd show ?thesis by simp
qed

text \<open>
  C1 as stated fails in both directions. A package whose offset 20 lies inside its 21
  bytes is not unpacked, because the one byte after the header is no archive. A package
  whose first field is \<open>B9 FE FF FF\<close> has the offset \<open>-311\<close>, outside the buffer; \<open>slice\<close>
  then counts from the end and yields the same 311 bytes of archive as the well-formed
  package with offset 20, and the upload succeeds.
\<close>

theorem crx_success_iff_inside_counterexample:
  "offset_inside (crx_with 0x04 0x00 0x00 0x00 [0x00]) \<and>
   \<not> upload_succeeds (reference_platform example_zip example_files)
       (upload ''a.crx'' (crx_with 0x04 0x00 0x00 0x00 [0x00])) initial_analyzer \<and>
   zipStartOffset (crx_with 0xB9 0xFE 0xFF 0xFF example_zip) = - 311 \<and>
   \<not> offset_inside (crx_with 0xB9 0xFE 0xFF 0xFF example_zip) \<and>
   zipData (ascii ''a.crx'') (crx_with 0xB9 0xFE 0xFF 0xFF example_zip) = example_zip \<and>
   zipData (ascii ''a.crx'') (crx_with 0x04 0x00 0x00 0x00 example_zip) = example_zip \<and>
   upload_succeeds (reference_platform example_zip example_files)
       (upload ''a.crx'' (crx_with 0xB9 0xFE 0xFF 0xFF example_zip)) initial_analyzer"
  by code_simp

subsection \<open>C2: the listed files of a plain archive\<close>

text \<open>
  C2, as amended. For a \<open>.zip\<close> upload the whole buffer goes to JSZip, and when every
  non-directory member can be read the upload succeeds and the listed files are exactly
  the non-directory members, each once and under its path, in no promised order (the
  statement is on multisets). A file whose name is not a text name carries the member's
  bytes and their number as its size; a file with a text name carries the member's
  content decoded as text.
\<close>

theorem zip_members_unpacked:
  assumes "endsWith (file_name file) (ascii ''.zip'')"
    and "arrayBuffer file = Some buf"
    and "zip_loadAsync lib buf = Some zs"
    and "list_all readable zs"
  shows "zipData (file_name file) buf = buf \<and> upload_succeeds lib file st \<and>
         rel_mset unpacks_to (mset (files (handleFileUpload lib (Some file) st))) (mset (members zs)) \<and>
         mset (map name (files (handleFileUpload lib (Some file) st))) = mset (map fst (members zs))"
proof -
  have acc: "accepted (file_name file)" using assms(1) by (simp add: accepted_def)
  have zd: "zipData (file_name file) buf = buf"
    using zip_not_crx[OF assms(1)] by (simp add: zipData_def)
  have ok: "upload_succeeds lib file st"
    using upload_succeeds_iff[OF acc assms(2), of lib st] zd assms(3,4) by simp
  then obtain buf' zs' where "arrayBuffer file = Some buf'"
    "zip_loadAsync lib (zipData (file_name file) buf') = Some zs'"
    "list_all2 unpacks_to (files (handleFileUpload lib (Some file) st)) (members zs')"
    by (rule upload_succeeds_files)
  with assms(2,3) zd
  have l: "list_all2 unpacks_to (files (handleFileUpload lib (Some file) st)) (members zs)"
    by simp
  then have "rel_mset unpacks_to (mset (files (handleFileUpload lib (Some file) st))) (mset (members zs))"
    unfolding rel_mset_def by blast
  moreover from l have "map name (files (handleFileUpload lib (Some file) st)) = map fst (members zs)"
    by (rule unpacks_to_names)
  ultimately show ?thesis using zd ok by simp
qed

theorem zip_members_unpacked_witness:
  "endsWith (file_name (upload ''pkg.zip'' odd_zip)) (ascii ''.zip'') \<and>
   arrayBuffer (upload ''pkg.zip'' odd_zip) = Some odd_zip \<and>
   zip_loadAsync (reference_platform odd_zip odd_files) odd_zip = Some odd_files \<and>
   list_all readable odd_files \<and>
   zipData (file_name (upload ''pkg.zip'' odd_zip)) odd_zip = odd_zip \<and>
   upload_succeeds (reference_platform odd_zip odd_files) (upload ''pkg.zip'' odd_zip) initial_analyzer \<and>
   rel_mset unpacks_to
     (mset (files (handleFileUpload (reference_platform odd_zip odd_files)
        (Some (upload ''pkg.zip'' odd_zip)) initial_analyzer)))
     (mset (members odd_files)) \<and>
   mset (map name (files (handleFileUpload (reference_platform odd_zip odd_files)
        (Some (upload ''pkg.zip'' odd_zip)) initial_analyzer)))
     = {#ascii ''icon.png'', ascii ''a.txt'', ascii ''data.json''#}"
proof -
  have a: "endsWith (file_name (upload ''pkg.zip'' odd_zip)) (ascii ''.zip'')"
    by (simp add: upload_def endsWith_def ascii_def)
  have b: "arrayBuffer (upload ''pkg.zip'' odd_zip) = Some odd_zip"
    by (simp add: upload_def)
  have c: "zip_loadAsync (reference_platform odd_zip odd_files) odd_zip = Some odd_files"
    by (simp add: reference_platform_def jszip_reading_def)
  have d: "list_all readable odd_files"
    by code_simp
  have m: "map fst (members odd_files) = [ascii ''a.txt'', ascii ''data.json'', ascii ''icon.png'']"
    by (simp add: members_def odd_files_def ascii_member_def)
  from zip_members_unpacked[OF a b c d, of initial_analyzer] a b c d m show ?thesis by simp
qed

text \<open>
  C2 as stated fails on members with a text name. \<open>data.json\<close> is packed with the one
  byte \<open>FF\<close> and listed with the text U+FFFD, which is not the packed content;
  \<open>a.txt\<close> is packed with two bytes and listed with size 1, the length of its text.
\<close>

theorem text_member_roundtrip_counterexample:
  "map (\<lambda>f. (name f, size_prop f, content f))
     (files (handleFileUpload (reference_platform odd_zip odd_files)
        (Some (upload ''pkg.zip'' odd_zip)) initial_analyzer))
     = [(ascii ''a.txt'', 1, Text [0xE9]),
        (ascii ''data.json'', 1, Text [0xFFFD]),
        (ascii ''icon.png'', 5, Buffer (map of_char ''hello''))] \<and>
   map (\<lambda>(fileName, zipEntry). (fileName, async_arraybuffer zipEntry)) odd_files
     = [(ascii ''a.txt'', Some [0xC3, 0xA9]),
        (ascii ''data.json'', Some [0xFF]),
        (ascii ''icon.png'', Some (map of_char ''hello''))]"
  by code_simp

subsection \<open>C3: text or binary\<close>

text \<open>
  C3. Whether a listed file is text is decided by its path alone, never by its content:
  after any upload that succeeds, every listed file has \<open>isText\<close> equal to the test of its
  name, for whatever the archive holds under that name. A name passes the test exactly
  when, with its ASCII capitals lowered, it ends in a dot and one of the extensions json,
  js, html, css, txt and md; \<open>data.json\<close> passes it and \<open>icon.png\<close> fails it.
\<close>

theorem text_classification_by_name:
  assumes "upload_succeeds lib file st"
  shows "list_all (\<lambda>f. isText f = is_text (name f)) (files (handleFileUpload lib (Some file) st)) \<and>
         (is_text n \<longleftrightarrow>
            (\<exists>stem ext. ext \<in> set text_extensions \<and>
                        map lower_ascii n = stem @ ascii (CHR ''.'' # ext))) \<and>
         is_text (ascii ''data.json'') \<and> \<not> is_text (ascii ''icon.png'')"
proof -
  from assms obtain zs where "list_all2 unpacks_to (files (handleFileUpload lib (Some file) st)) (members zs)"
    by (rule upload_succeeds_files)
  then have "list_all (\<lambda>f. isText f = is_text (name f)) (files (handleFileUpload lib (Some file) st))"
    by (rule unpacks_to_isText)
  then show ?thesis
    using is_text_iff[of n] data_json_text icon_png_binary by blast
qed

theorem text_classification_by_name_witness:
  "upload_succeeds (reference_platform odd_zip odd_files) (upload ''pkg.zip'' odd_zip) initial_analyzer \<and>
   list_all (\<lambda>f. isText f = is_text (name f))
     (files (handleFileUpload (reference_platform odd_zip odd_files)
        (Some (upload ''pkg.zip'' odd_zip)) initial_analyzer)) \<and>
   map (\<lambda>f. (name f, isText f))
     (files (handleFileUpload (reference_platform odd_zip odd_files)
        (Some (upload ''pkg.zip'' odd_zip)) initial_analyzer))
     = [(ascii ''a.txt'', True), (ascii ''data.json'', True), (ascii ''icon.png'', False)] \<and>
   is_text (ascii ''README.MD'') \<and>
   (\<exists>stem ext. ext \<in> set text_extensions \<and>
       map lower_ascii (ascii ''README.MD'') = stem @ ascii (CHR ''.'' # ext)) \<and>
   is_text (ascii ''data.json'') \<and> \<not> is_text (ascii ''icon.png'')"
proof -
  have ok: "upload_succeeds (reference_platform odd_zip odd_files) (upload ''pkg.zip'' odd_zip) initial_analyzer"
    by code_simp
  have listed: "map (\<lambda>f. (name f, isText f))
     (files (handleFileUpload (reference_platform odd_zip odd_files)
        (Some (upload ''pkg.zip'' odd_zip)) initial_analyzer))
     = [(ascii ''a.txt'', True), (ascii ''data.json'', True), (ascii ''icon.png'', False)]"
    by code_simp
  have upper: "is_text (ascii ''README.MD'')"
    by code_simp
  from text_classification_by_name[OF ok, of "ascii ''README.MD''"] ok listed upper
  show ?thesis by blast
qed

subsection \<open>C4: other file names\<close>

text \<open>
  C4. A file whose name ends neither in \<open>.crx\<close> nor in \<open>.zip\<close> is answered with the
  invalid-file toast and nothing else: the state is otherwise unchanged, \<open>loadAsync\<close> is
  not called, and neither the library nor the bytes of the file enter the result.
\<close>

theorem invalid_name_rejected:
  assumes "\<not> endsWith (file_name file) (ascii ''.crx'')"
    and "\<not> endsWith (file_name file) (ascii ''.zip'')"
  shows "handleFileUpload lib (Some file) st = st\<lparr>effects := effects st @ [Toast InvalidFile]\<rparr>"
  using assms by (simp add: handleFileUpload_def)

theorem invalid_name_rejected_witness:
  "\<not> endsWith (file_name (upload ''notes.txt'' example_zip)) (ascii ''.crx'') \<and>
   \<not> endsWith (file_name (upload ''notes.txt'' example_zip)) (ascii ''.zip'') \<and>
   handleFileUpload (reference_platform example_zip example_files)
       (Some (upload ''notes.txt'' example_zip)) initial_analyzer
     = initial_analyzer\<lparr>effects := [Toast InvalidFile]\<rparr>"
proof -
  have a: "\<not> endsWith (file_name (upload ''notes.txt'' example_zip)) (ascii ''.crx'')"
    by (simp add: upload_def endsWith_def ascii_def)
  have b: "\<not> endsWith (file_name (upload ''notes.txt'' example_zip)) (ascii ''.zip'')"
    by (simp add: upload_def endsWith_def ascii_def)
  from invalid_name_rejected[OF a b, of "reference_platform example_zip example_files" initial_analyzer] a b
  show ?thesis by (simp add: initial_analyzer_def)
qed

subsection \<open>C5: a manifest that is no JSON\<close>

text \<open>
  C5. When the archive holds a non-directory \<open>manifest.json\<close> whose text \<open>JSON.parse\<close>
  rejects, and its members can be read, the upload still succeeds: the error is logged
  and swallowed, the manifest slot is \<open>null\<close>, and the list of files is not empty: it
  names every non-directory member, \<open>manifest.json\<close> among them. (The names of
  \<open>loadedZip.files\<close> are the keys of an object, hence distinct.)
\<close>

theorem malformed_manifest_swallowed:
  assumes "accepted (file_name file)"
    and "arrayBuffer file = Some buf"
    and "zip_loadAsync lib (zipData (file_name file) buf) = Some zs"
    and "distinct (map fst zs)"
    and "list_all readable zs"
    and "(ascii ''manifest.json'', z) \<in> set zs"
    and "\<not> dir z"
    and "async_text z = Some t"
    and "json_parse lib t = None"
  shows "upload_succeeds lib file st \<and>
         manifest (handleFileUpload lib (Some file) st) = JNull \<and>
         files (handleFileUpload lib (Some file) st) \<noteq> [] \<and>
         map name (files (handleFileUpload lib (Some file) st)) = map fst (members zs) \<and>
         ascii ''manifest.json'' \<in> set (map name (files (handleFileUpload lib (Some file) st))) \<and>
         effects (handleFileUpload lib (Some file) st) =
           effects st @ [LoadAsync (zipData (file_name file) buf),
                         ConsoleError ErrorParsingManifest,
                         Toast (Extracted (length (members zs)))]"
proof -
  have ok: "upload_succeeds lib file st"
    using upload_succeeds_iff[OF assms(1,2), of lib st] assms(3,5) by simp
  from assms(1,2) show ?thesis
  proof (cases rule: handle_outcome[where lib = lib and st = st])
    case (extracted zs' fs m es)
    with assms(3) have loop:
      "entries_loop (json_parse lib) zs [] JNull (effects st @ [LoadAsync (zipData (file_name file) buf)]) = (Some (fs, m), es)"
      by simp
    from loop_malformed_manifest[OF loop assms(4) assms(6) assms(7) assms(8) assms(9)]
    have m: "m = JNull" and es: "es = (effects st @ [LoadAsync (zipData (file_name file) buf)]) @ [ConsoleError ErrorParsingManifest]"
      by simp_all
    from members_length_loop[OF loop] have len: "length fs = length (members zs)"
      and names: "map name fs = map fst (members zs)" by simp_all
    have mem: "(ascii ''manifest.json'', z) \<in> set (members zs)"
      using assms(6,7) by (simp add: members_def)
    then have "ascii ''manifest.json'' \<in> set (map fst (members zs))" by force
    moreover from mem have "members zs \<noteq> []" by auto
    with len have "fs \<noteq> []" by auto
    ultimately show ?thesis using extracted(3) ok m es len names by simp
  next
    case (failed k)
    with ok show ?thesis by simp
  qed
qed

theorem malformed_manifest_swallowed_witness:
  "accepted (file_name (upload ''pkg.zip'' broken_zip)) \<and>
   arrayBuffer (upload ''pkg.zip'' broken_zip) = Some broken_zip \<and>
   zip_loadAsync (reference_platform broken_zip broken_files)
     (zipData (file_name (upload ''pkg.zip'' broken_zip)) broken_zip) = Some broken_files \<and>
   distinct (map fst broken_files) \<and> list_all readable broken_files \<and>
   (ascii ''manifest.json'', ascii_member ''{\"name\":\"Test\",}'') \<in> set broken_files \<and>
   \<not> dir (ascii_member ''{\"name\":\"Test\",}'') \<and>
   async_text (ascii_member ''{\"name\":\"Test\",}'') = Some (ascii ''{\"name\":\"Test\",}'') \<and>
   json_parse (reference_platform broken_zip broken_files) (ascii ''{\"name\":\"Test\",}'') = None \<and>
   upload_succeeds (reference_platform broken_zip broken_files) (upload ''pkg.zip'' broken_zip) initial_analyzer \<and>
   manifest (handleFileUpload (reference_platform broken_zip broken_files)
      (Some (upload ''pkg.zip'' broken_zip)) initial_analyzer) = JNull \<and>
   map name (files (handleFileUpload (reference_platform broken_zip broken_files)
      (Some (upload ''pkg.zip'' broken_zip)) initial_analyzer)) = [ascii ''manifest.json'', ascii ''icon.png''] \<and>
   effects (handleFileUpload (reference_platform broken_zip broken_files)
      (Some (upload ''pkg.zip'' broken_zip)) initial_analyzer) =
     [LoadAsync broken_zip, ConsoleError ErrorParsingManifest, Toast (Extracted 2)]"
proof -
  let ?lib = "reference_platform broken_zip broken_files"
  let ?file = "upload ''pkg.zip'' broken_zip"
  let ?z = "ascii_member ''{\"name\":\"Test\",}''"
  have a: "accepted (file_name ?file)"
    by (simp add: accepted_def upload_def endsWith_def ascii_def)
  have b: "arrayBuffer ?file = Some broken_zip"
    by (simp add: upload_def)
  have zd: "zipData (file_name ?file) broken_zip = broken_zip"
    by (simp add: zipData_def upload_def endsWith_def ascii_def)
  have c: "zip_loadAsync ?lib (zipData (file_name ?file) broken_zip) = Some broken_files"
    by (simp add: zd reference_platform_def jszip_reading_def)
  have d: "distinct (map fst broken_files)"
    by (simp add: broken_files_def ascii_def)
  have e: "list_all readable broken_files"
    by code_simp
  have f: "(ascii ''manifest.json'', ?z) \<in> set broken_files"
    by (simp add: broken_files_def)
  have g: "\<not> dir ?z"
    by (simp add: ascii_member_def)
  have h: "async_text ?z = Some (ascii ''{\"name\":\"Test\",}'')"
    by (simp add: ascii_member_def)
  have "JSON_parse (ascii ''{\"name\":\"Test\",}'') = None"
    by code_simp
  then have i: "json_parse ?lib (ascii ''{\"name\":\"Test\",}'') = None"
    by (simp add: reference_platform_def)
  have mem: "map fst (members broken_files) = [ascii ''manifest.json'', ascii ''icon.png'']"
    by (simp add: members_def broken_files_def ascii_member_def)
  then have len: "length (members broken_files) = 2"
    using length_map[of fst "members broken_files"] by simp
  from malformed_manifest_swallowed[OF a b c d e f g h i, of initial_analyzer] a b c d e f g h i mem len zd
  show ?thesis by (simp add: initial_analyzer_def)
qed

subsection \<open>C6: what an upload leaves of the one before\<close>

text \<open>
  C6, as amended. An upload that succeeds replaces the current package as a whole: the
  listed files and the manifest are those the same upload yields on any other state,
  and the selection is cleared. An upload that does not succeed (a refused name, a file
  that cannot be read, a buffer JSZip rejects, a member that cannot be read) leaves the
  listed files, the manifest and the selection of the upload before it in place.
\<close>

theorem upload_replaces_on_success_only:
  "(upload_succeeds lib file st \<longrightarrow>
      files (handleFileUpload lib (Some file) st) = files (handleFileUpload lib (Some file) st0) \<and>
      manifest (handleFileUpload lib (Some file) st) = manifest (handleFileUpload lib (Some file) st0) \<and>
      selectedFile (handleFileUpload lib (Some file) st) = None) \<and>
   (\<not> upload_succeeds lib file st \<longrightarrow>
      files (handleFileUpload lib (Some file) st) = files st \<and>
      manifest (handleFileUpload lib (Some file) st) = manifest st \<and>
      selectedFile (handleFileUpload lib (Some file) st) = selectedFile st)"
  using handle_succeeded_fresh[of lib "file" st st0] handle_failed_keeps[of lib "file" st] by blast

theorem upload_replaces_on_success_only_witness:
  "upload_succeeds (reference_platform example_zip example_files) (upload ''test.zip'' example_zip) previous_upload \<and>
   files (handleFileUpload (reference_platform example_zip example_files)
       (Some (upload ''test.zip'' example_zip)) previous_upload)
     = files (handleFileUpload (reference_platform example_zip example_files)
       (Some (upload ''test.zip'' example_zip)) initial_analyzer) \<and>
   manifest (handleFileUpload (reference_platform example_zip example_files)
       (Some (upload ''test.zip'' example_zip)) previous_upload)
     = manifest (handleFileUpload (reference_platform example_zip example_files)
       (Some (upload ''test.zip'' example_zip)) initial_analyzer) \<and>
   selectedFile (handleFileUpload (reference_platform example_zip example_files)
       (Some (upload ''test.zip'' example_zip)) previous_upload) = None \<and>
   \<not> upload_succeeds (reference_platform example_zip example_files) (upload ''test.zip'' [0x00]) previous_upload \<and>
   files (handleFileUpload (reference_platform example_zip example_files)
       (Some (upload ''test.zip'' [0x00])) previous_upload) = files previous_upload \<and>
   manifest (handleFileUpload (reference_platform example_zip example_files)
       (Some (upload ''test.zip'' [0x00])) previous_upload) = manifest previous_upload \<and>
   selectedFile (handleFileUpload (reference_platform example_zip example_files)
       (Some (upload ''test.zip'' [0x00])) previous_upload) = selectedFile previous_upload"
proof -
  let ?lib = "reference_platform example_zip example_files"
  have ok: "upload_succeeds ?lib (upload ''test.zip'' example_zip) previous_upload"
    by code_simp
  have bad: "\<not> upload_succeeds ?lib (upload ''test.zip'' [0x00]) previous_upload"
    by code_simp
  from upload_replaces_on_success_only[of ?lib "upload ''test.zip'' example_zip" previous_upload initial_analyzer]
       upload_replaces_on_success_only[of ?lib "upload ''test.zip'' [0x00]" previous_upload initial_analyzer]
       ok bad
  show ?thesis by simp
qed

text \<open>
  C6 as stated fails when the new upload fails: after \<open>test.zip\<close> with the single
  byte 0, which JSZip rejects, and after \<open>notes.txt\<close>, the file list, the manifest
  and the selection of the previous upload are all still there.
\<close>

theorem failed_upload_keeps_state_counterexample:
  "files previous_upload \<noteq> [] \<and> manifest previous_upload \<noteq> JNull \<and>
   selectedFile previous_upload \<noteq> None \<and>
   files (handleFileUpload (reference_platform example_zip example_files)
       (Some (upload ''test.zip'' [0x00])) previous_upload) = files previous_upload \<and>
   manifest (handleFileUpload (reference_platform example_zip example_files)
       (Some (upload ''test.zip'' [0x00])) previous_upload) = manifest previous_upload \<and>
   selectedFile (handleFileUpload (reference_platform example_zip example_files)
       (Some (upload ''test.zip'' [0x00])) previous_upload) = selectedFile previous_upload \<and>
   effects (handleFileUpload (reference_platform example_zip example_files)
       (Some (upload ''test.zip'' [0x00])) previous_upload)
     = [Toast (Extracted 1), LoadAsync [0x00], ConsoleError ErrorProcessingFile, Toast ProcessingError] \<and>
   files (handleFileUpload (reference_platform example_zip example_files)
       (Some (upload ''notes.txt'' example_zip)) previous_upload) = files previous_upload \<and>
   manifest (handleFileUpload (reference_platform example_zip example_files)
       (Some (upload ''notes.txt'' example_zip)) previous_upload) = manifest previous_upload \<and>
   selectedFile (handleFileUpload (reference_platform example_zip example_files)
       (Some (upload ''notes.txt'' example_zip)) previous_upload) = selectedFile previous_upload"
  by code_simp

subsection \<open>C7: an archive start outside the buffer\<close>

text \<open>
  C7. For a \<open>.crx\<close> upload whose archive start is negative, or at or beyond the length
  of the buffer, nothing fails at the slice: the payload is the end of the buffer counted
  back from its last byte (negative start) or empty (start at or beyond the length), and
  \<open>loadAsync\<close> is called with it. A failure shows only afterwards: when JSZip rejects the
  payload the handler logs the error and shows the one could-not-process toast, and that
  toast is the last effect of every such upload that does not succeed.
\<close>

theorem out_of_range_offset_not_checked:
  assumes "endsWith (file_name file) (ascii ''.crx'')"
    and "arrayBuffer file = Some buf"
    and "\<not> offset_inside buf"
  shows "zipData (file_name file) buf =
           (if zipStartOffset buf < 0 then drop (length buf - nat (- zipStartOffset buf)) buf else []) \<and>
         take (Suc (length (effects st))) (effects (handleFileUpload lib (Some file) st))
           = effects st @ [LoadAsync (zipData (file_name file) buf)] \<and>
         (zip_loadAsync lib (zipData (file_name file) buf) = None \<longrightarrow>
            handleFileUpload lib (Some file) st =
              st\<lparr>isProcessing := False,
                 effects := effects st @ [LoadAsync (zipData (file_name file) buf),
                                          ConsoleError ErrorProcessingFile, Toast ProcessingError]\<rparr>) \<and>
         (\<not> upload_succeeds lib file st \<longrightarrow>
            last (effects (handleFileUpload lib (Some file) st)) = Toast ProcessingError)"
proof -
  note acc = crx_accepted[OF assms(1)]
  have "zipData (file_name file) buf =
           (if zipStartOffset buf < 0 then drop (length buf - nat (- zipStartOffset buf)) buf else [])"
    using zipData_crx[OF assms(1)] slice_outside[OF assms(3)] by simp
  moreover note handle_calls_loadAsync[OF acc assms(2), of st lib]
  moreover have "zip_loadAsync lib (zipData (file_name file) buf) = None \<longrightarrow>
            handleFileUpload lib (Some file) st =
              st\<lparr>isProcessing := False,
                 effects := effects st @ [LoadAsync (zipData (file_name file) buf),
                                          ConsoleError ErrorProcessingFile, Toast ProcessingError]\<rparr>"
    using handle_not_archive[OF acc assms(2), of lib st] by blast
  moreover have "\<not> upload_succeeds lib file st \<longrightarrow>
            last (effects (handleFileUpload lib (Some file) st)) = Toast ProcessingError"
    using handle_failed_toast[OF acc, of lib st] by blast
  ultimately show ?thesis by blast
qed

theorem out_of_range_offset_not_checked_witness:
  "endsWith (file_name (upload ''a.crx'' (crx_with 0xE8 0x03 0x00 0x00 example_zip))) (ascii ''.crx'') \<and>
   arrayBuffer (upload ''a.crx'' (crx_with 0xE8 0x03 0x00 0x00 example_zip))
     = Some (crx_with 0xE8 0x03 0x00 0x00 example_zip) \<and>
   \<not> offset_inside (crx_with 0xE8 0x03 0x00 0x00 example_zip) \<and>
   zipStartOffset (crx_with 0xE8 0x03 0x00 0x00 example_zip) = 1016 \<and>
   length (crx_with 0xE8 0x03 0x00 0x00 example_zip) = 331 \<and>
   zipData (file_name (upload ''a.crx'' (crx_with 0xE8 0x03 0x00 0x00 example_zip)))
     (crx_with 0xE8 0x03 0x00 0x00 example_zip) = [] \<and>
   handleFileUpload (reference_platform example_zip example_files)
       (Some (upload ''a.crx'' (crx_with 0xE8 0x03 0x00 0x00 example_zip))) initial_analyzer
     = initial_analyzer\<lparr>effects := [LoadAsync [], ConsoleError ErrorProcessingFile, Toast ProcessingError]\<rparr> \<and>
   \<not> upload_succeeds (reference_platform example_zip example_files)
       (upload ''a.crx'' (crx_with 0xE8 0x03 0x00 0x00 example_zip)) initial_analyzer"
proof -
  let ?buf = "crx_with 0xE8 0x03 0x00 0x00 example_zip"
  let ?file = "upload ''a.crx'' ?buf"
  let ?lib = "reference_platform example_zip example_files"
  have a: "endsWith (file_name ?file) (ascii ''.crx'')"
    by (simp add: upload_def endsWith_def ascii_def)
  have b: "arrayBuffer ?file = Some ?buf"
    by (simp add: upload_def)
  have off: "zipStartOffset ?buf = 1016"
    by code_simp
  have len: "length ?buf = 331"
    by code_simp
  have c: "\<not> offset_inside ?buf"
    by (simp add: offset_inside_def off len)
  note t = out_of_range_offset_not_checked[OF a b c, of initial_analyzer ?lib]
  from t off have zd: "zipData (file_name ?file) ?buf = []" by simp
  have rej: "zip_loadAsync ?lib [] = None"
    by (simp add: reference_platform_def jszip_reading_def example_zip_def)
  from t zd rej have res: "handleFileUpload ?lib (Some ?file) initial_analyzer
     = initial_analyzer\<lparr>effects := [LoadAsync [], ConsoleError ErrorProcessingFile, Toast ProcessingError]\<rparr>"
    by (simp add: initial_analyzer_def)
  then have "\<not> upload_succeeds ?lib ?file initial_analyzer"
    by (simp add: upload_succeeds_def initial_analyzer_def)
  with a b c off len zd res show ?thesis by simp
qed

subsection \<open>C8: object URLs\<close>

text \<open>
  C8 does not hold of \<open>runExtension\<close>. It creates an object URL and revokes none, so
  every URL that is live before a run is live after it; pressing the run button \<open>n\<close>
  times on the data of the example leaves \<open>n\<close> object URLs alive. After two runs the
  URLs 0 and 1 are both live and only URL 1 is still known to the component. The sibling
  paths keep the discipline: \<open>refreshExtension\<close> revokes the shown URL before it runs
  again, and \<open>downloadFile\<close> revokes the URL it made.
\<close>

theorem run_again_keeps_every_url_live:
  "set (live (page st)) \<subseteq> set (live (page (runExtension st))) \<and>
   length (live (page ((runExtension ^^ n) (mounted_runner example_data)))) = n \<and>
   map fst (live (page (runExtension (runExtension (mounted_runner example_data))))) = [0, 1] \<and>
   extensionUrl (runExtension (runExtension (mounted_runner example_data))) = Some 1 \<and>
   map fst (live (page (refreshExtension (runExtension (mounted_runner example_data))))) = [1] \<and>
   live (downloadFile popup_file (page (runExtension (mounted_runner example_data))))
     = live (page (runExtension (mounted_runner example_data)))"
proof -
  have m: "extensionData (mounted_runner example_data) = Some example_data"
    by (simp add: mounted_runner_def)
  have "length (live (page ((runExtension ^^ n) (mounted_runner example_data)))) = n"
    using run_example_iterated[OF m, of n] by (simp add: mounted_runner_def)
  moreover have "map fst (live (page (runExtension (runExtension (mounted_runner example_data))))) = [0, 1] \<and>
   extensionUrl (runExtension (runExtension (mounted_runner example_data))) = Some 1 \<and>
   map fst (live (page (refreshExtension (runExtension (mounted_runner example_data))))) = [1] \<and>
   live (downloadFile popup_file (page (runExtension (mounted_runner example_data))))
     = live (page (runExtension (mounted_runner example_data)))"
    by code_simp
  moreover note runExtension_revokes_nothing[of st]
  ultimately show ?thesis by blast
qed

subsection \<open>C9: the example archive\<close>

text \<open>
  C9. Whenever JSZip presents the archive of the example (\<open>manifest.json\<close> with the
  manifest text and \<open>popup.html\<close> with \<open><html></html>\<close>) and \<open>JSON.parse\<close> is the reference
  parser, the upload yields the descriptor with name \<open>Test\<close>, version \<open>1.0\<close>,
  manifest_version 3 and permissions \<open>[storage]\<close>, and a list of two files, both text.
\<close>

theorem example_archive_unpacked:
  assumes "accepted (file_name file)"
    and "arrayBuffer file = Some buf"
    and "zip_loadAsync lib (zipData (file_name file) buf) = Some example_files"
    and "json_parse lib = JSON_parse"
  shows "manifest (handleFileUpload lib (Some file) st) =
           JObject [(ascii ''name'', JString (ascii ''Test'')),
                    (ascii ''version'', JString (ascii ''1.0'')),
                    (ascii ''manifest_version'', JNumber 3),
                    (ascii ''permissions'', JArray [JString (ascii ''storage'')])] \<and>
         map name (files (handleFileUpload lib (Some file) st)) = [ascii ''manifest.json'', ascii ''popup.html''] \<and>
         length (files (handleFileUpload lib (Some file) st)) = 2 \<and>
         list_all isText (files (handleFileUpload lib (Some file) st))"
proof -
  have "entries_loop (json_parse lib) example_files [] JNull (effects st @ [LoadAsync (zipData (file_name file) buf)])
      = (Some ([\<lparr>name = ascii ''manifest.json'', size_prop = 78,
               content = Text (ascii example_manifest), isText = True\<rparr>,
             \<lparr>name = ascii ''popup.html'', size_prop = 13,
               content = Text (ascii ''<html></html>''), isText = True\<rparr>],
            example_descriptor), effects st @ [LoadAsync (zipData (file_name file) buf)])"
    using assms(4) example_loop by simp
  from handle_extracted[OF assms(1,2,3) this] show ?thesis
    by (simp add: example_descriptor_def)
qed

theorem example_archive_unpacked_witness:
  "accepted (file_name (upload ''test.zip'' example_zip)) \<and>
   arrayBuffer (upload ''test.zip'' example_zip) = Some example_zip \<and>
   zip_loadAsync (reference_platform example_zip example_files)
     (zipData (file_name (upload ''test.zip'' example_zip)) example_zip) = Some example_files \<and>
   json_parse (reference_platform example_zip example_files) = JSON_parse \<and>
   manifest (handleFileUpload (reference_platform example_zip example_files)
       (Some (upload ''test.zip'' example_zip)) initial_analyzer) =
     JObject [(ascii ''name'', JString (ascii ''Test'')),
              (ascii ''version'', JString (ascii ''1.0'')),
              (ascii ''manifest_version'', JNumber 3),
              (ascii ''permissions'', JArray [JString (ascii ''storage'')])] \<and>
   map name (files (handleFileUpload (reference_platform example_zip example_files)
       (Some (upload ''test.zip'' example_zip)) initial_analyzer)) = [ascii ''manifest.json'', ascii ''popup.html''] \<and>
   length (files (handleFileUpload (reference_platform example_zip example_files)
       (Some (upload ''test.zip'' example_zip)) initial_analyzer)) = 2 \<and>
   list_all isText (files (handleFileUpload (reference_platform example_zip example_files)
       (Some (upload ''test.zip'' example_zip)) initial_analyzer))"
proof -
  let ?lib = "reference_platform example_zip example_files"
  let ?file = "upload ''test.zip'' example_zip"
  have a: "accepted (file_name ?file)"
    by (simp add: accepted_def upload_def endsWith_def ascii_def)
  have b: "arrayBuffer ?file = Some example_zip"
    by (simp add: upload_def)
  have zd: "zipData (file_name ?file) example_zip = example_zip"
    by (simp add: zipData_def upload_def endsWith_def ascii_def)
  have c: "zip_loadAsync ?lib (zipData (file_name ?file) example_zip) = Some example_files"
    by (simp add: zd reference_platform_def jszip_reading_def)
  have d: "json_parse ?lib = JSON_parse"
    by (simp add: reference_platform_def)
  from example_archive_unpacked[OF a b c d, of initial_analyzer] a b c d show ?thesis by simp
qed

subsection \<open>C10: where the manifest is looked for\<close>

text \<open>
  C10. A manifest is read only from a non-directory member whose path is exactly
  \<open>manifest.json\<close>: an archive without such a member, whose members can be read,
  unpacks with the manifest slot \<open>null\<close> and no parse error logged, even when it holds
  \<open>subdir/manifest.json\<close> or \<open>Manifest.json\<close> with valid JSON.
\<close>

theorem manifest_only_at_top_level:
  assumes "accepted (file_name file)"
    and "arrayBuffer file = Some buf"
    and "zip_loadAsync lib (zipData (file_name file) buf) = Some zs"
    and "list_all readable zs"
    and "\<not> list_ex manifest_key zs"
  shows "upload_succeeds lib file st \<and>
         manifest (handleFileUpload lib (Some file) st) = JNull \<and>
         map name (files (handleFileUpload lib (Some file) st)) = map fst (members zs) \<and>
         effects (handleFileUpload lib (Some file) st) =
           effects st @ [LoadAsync (zipData (file_name file) buf),
                         Toast (Extracted (length (members zs)))]"
proof -
  have ok: "upload_succeeds lib file st"
    using upload_succeeds_iff[OF assms(1,2), of lib st] assms(3,4) by simp
  from assms(1,2) show ?thesis
  proof (cases rule: handle_outcome[where lib = lib and st = st])
    case (extracted zs' fs m es)
    with assms(3) have loop:
      "entries_loop (json_parse lib) zs [] JNull (effects st @ [LoadAsync (zipData (file_name file) buf)]) = (Some (fs, m), es)"
      by simp
    from loop_no_manifest[OF loop assms(5)]
    have m: "m = JNull" and es: "es = effects st @ [LoadAsync (zipData (file_name file) buf)]"
      by simp_all
    from members_length_loop[OF loop] have len: "length fs = length (members zs)"
      and names: "map name fs = map fst (members zs)" by simp_all
    show ?thesis using extracted(3) ok m es len names by simp
  next
    case (failed k)
    with ok show ?thesis by simp
  qed
qed

theorem manifest_only_at_top_level_witness:
  "accepted (file_name (upload ''pkg.zip'' nested_zip)) \<and>
   arrayBuffer (upload ''pkg.zip'' nested_zip) = Some nested_zip \<and>
   zip_loadAsync (reference_platform nested_zip nested_files)
     (zipData (file_name (upload ''pkg.zip'' nested_zip)) nested_zip) = Some nested_files \<and>
   list_all readable nested_files \<and> \<not> list_ex manifest_key nested_files \<and>
   JSON_parse (ascii ''{\"name\":\"Test\"}'') = Some (JObject [(ascii ''name'', JString (ascii ''Test''))]) \<and>
   upload_succeeds (reference_platform nested_zip nested_files) (upload ''pkg.zip'' nested_zip) initial_analyzer \<and>
   manifest (handleFileUpload (reference_platform nested_zip nested_files)
      (Some (upload ''pkg.zip'' nested_zip)) initial_analyzer) = JNull \<and>
   map name (files (handleFileUpload (reference_platform nested_zip nested_files)
      (Some (upload ''pkg.zip'' nested_zip)) initial_analyzer))
     = [ascii ''subdir/manifest.json'', ascii ''Manifest.json'']"
proof -
  let ?lib = "reference_platform nested_zip nested_files"
  let ?file = "upload ''pkg.zip'' nested_zip"
  have a: "accepted (file_name ?file)"
    by (simp add: accepted_def upload_def endsWith_def ascii_def)
  have b: "arrayBuffer ?file = Some nested_zip"
    by (simp add: upload_def)
  have zd: "zipData (file_name ?file) nested_zip = nested_zip"
    by (simp add: zipData_def upload_def endsWith_def ascii_def)
  have c: "zip_loadAsync ?lib (zipData (file_name ?file) nested_zip) = Some nested_files"
    by (simp add: zd reference_platform_def jszip_reading_def)
  have d: "list_all readable nested_files"
    by code_simp
  have e: "\<not> list_ex manifest_key nested_files"
    by code_simp
  have p: "JSON_parse (ascii ''{\"name\":\"Test\"}'') = Some (JObject [(ascii ''name'', JString (ascii ''Test''))])"
    by code_simp
  have mem: "map fst (members nested_files) = [ascii ''subdir/manifest.json'', ascii ''Manifest.json'']"
    by (simp add: members_def nested_files_def ascii_member_def folder_def)
  from manifest_only_at_top_level[OF a b c d e, of initial_analyzer] a b c d e p mem
  show ?thesis by simp
qed

end
